theory Spec2Isabelle
  imports Main "HOL-Library.Sublist"
begin

section \<open>Errors\<close>

text \<open>
  Go's \<open>error\<close> values. A function returning \<open>error\<close> is modelled as returning
  \<open>error option\<close> (\<open>None\<close> is \<open>nil\<close>); a function returning \<open>(T, error)\<close> as
  returning \<open>error + T\<close>. \<open>Wrap\<close> stands for \<open>errors.Wrap\<close> and \<open>errors.Wrapf\<close>,
  \<open>WithStack\<close> for \<open>errors.WithStack\<close>, \<open>New\<close> for \<open>errors.New\<close>, \<open>Multi\<close> for what
  a catcher resolves to. \<open>ErrNotFound\<close> is \<open>mgo.ErrNotFound\<close>, \<open>ErrNotExist\<close> the
  operating system's missing-file error, \<open>Fault\<close> any other failure of a collaborator.
\<close>

datatype error =
    ErrNotFound
  | ErrNotExist
  | Fault string
  | New string
  | Wrap error string
  | WithStack error
  | Multi "error list"

text \<open>\<open>errors.Wrap(nil, msg)\<close> and \<open>errors.WithStack(nil)\<close> are \<open>nil\<close>.\<close>

definition wrap :: "error option \<Rightarrow> string \<Rightarrow> error option" where
  "wrap e msg = map_option (\<lambda>x. Wrap x msg) e"

definition withStack :: "error option \<Rightarrow> error option" where
  "withStack e = map_option WithStack e"

text \<open>\<open>errors.Cause\<close>: the innermost error below the wrappers.\<close>

fun cause :: "error \<Rightarrow> error" where
  "cause (Wrap e msg) = cause e"
| "cause (WithStack e) = cause e"
| "cause e = e"

definition isNotExist :: "error \<Rightarrow> bool" where
  "isNotExist e = (e = ErrNotExist)"

section \<open>Options\<close>

record GridFSOptions =
  Name :: string
  Prefix :: string
  Database :: string
  DryRun :: bool
  DeleteOnPush :: bool
  DeleteOnPull :: bool
  DeleteOnSync :: bool
  Verbose :: bool

record SyncOptions =
  Local :: string
  Remote :: string
  Exclude :: string

section \<open>The collaborators: database, local file system\<close>

text \<open>
  A stored GridFS object: its name (the backend path), the checksum the backend reports
  for it (\<open>file.MD5()\<close>, possibly empty) and its bytes.
\<close>

record gridfile =
  gf_name :: string
  gf_md5 :: string
  gf_data :: string

text \<open>
  The calls that leave the process: requests to the database through the driver, and
  calls to the operating system on local files. \<open>DbFind None\<close> is \<open>Find(nil)\<close>,
  \<open>DbFind (Some p)\<close> a query for the file names matching the regular expression \<open>p\<close>.
\<close>

datatype call =
    DbFind "string option"
  | DbOpen string
  | DbCreate string
  | DbWrite string
  | DbClose string
  | DbRead string
  | DbRemove string
  | OsOpen string
  | OsRead string
  | OsMkdirAll string
  | OsCreate string
  | OsWrite string
  | OsClose string

text \<open>
  The world outside the bucket: the objects of the GridFS collection in insertion order
  (GridFS keeps every version of a name), the local files, the calls made so far, and
  which calls the collaborator answers with a failure of its own. The trace records
  the calls that query, open, create, write, close or remove; reading from a handle
  that is already open is not recorded, and \<open>fault w (DbRead n)\<close>, \<open>fault w (OsRead p)\<close>
  say whether such a read fails.
\<close>

record world =
  files :: "gridfile list"
  disk :: "string \<rightharpoonup> string"
  trace :: "call list"
  fault :: "call \<Rightarrow> error option"

definition emit :: "call \<Rightarrow> world \<Rightarrow> world" where
  "emit c w = w\<lparr>trace := trace w @ [c]\<rparr>"

text \<open>
  An \<open>io.Reader\<close>: the bytes it delivers, then end of input (\<open>None\<close>) or a read error.
\<close>

datatype reader = Delivers (rd_bytes: string) (rd_err: "error option")

text \<open>
  A \<open>*mgo.Iter\<close> over file documents: the documents still to be delivered, and the
  error the cursor ends with (\<open>iter.Err()\<close> once it is drained).
\<close>

datatype cursor = Cursor (pending: "gridfile list") (broken: "error option")

text \<open>
  Functions and libraries that the bucket calls and whose code lies outside
  \<open>gridfs_legacy.go\<close>; they are parameters of the model.
  \<^item> \<open>consistentJoin\<close>, \<open>md5sum\<close>, \<open>walkLocalTree\<close>, \<open>deleteOnPush\<close>, \<open>deleteOnPull\<close>:
    helpers of the package;
  \<^item> \<open>regexpCompile\<close>: \<open>regexp.Compile\<close>, giving the compiled expression as its
    \<open>MatchString\<close> predicate;
  \<^item> \<open>regexMatch\<close>: the database's evaluation of a regular-expression query, pattern
    first, file name second;
  \<^item> \<open>filepathJoin\<close>, \<open>filepathDir\<close>: \<open>filepath.Join\<close> and \<open>filepath.Dir\<close>;
  \<^item> \<open>digest\<close>: the checksum the driver records for the bytes of a file it has written.
\<close>

record env =
  consistentJoin :: "string \<Rightarrow> string \<Rightarrow> string"
  md5sum :: "world \<Rightarrow> string \<Rightarrow> error + string"
  walkLocalTree :: "world \<Rightarrow> string \<Rightarrow> error + string list"
  deleteOnPush :: "string list \<Rightarrow> string \<Rightarrow> GridFSOptions \<Rightarrow> world \<Rightarrow> error option \<times> world"
  deleteOnPull :: "string list \<Rightarrow> string \<Rightarrow> world \<Rightarrow> error option \<times> world"
  regexpCompile :: "string \<Rightarrow> error + (string \<Rightarrow> bool)"
  regexMatch :: "string \<Rightarrow> string \<Rightarrow> bool"
  filepathJoin :: "string \<Rightarrow> string \<Rightarrow> string"
  filepathDir :: "string \<Rightarrow> string"
  digest :: "string \<Rightarrow> string"

section \<open>Key codec\<close>

text \<open>
  \<^verbatim>\<open>
  func (b *gridfsLegacyBucket) normalizeKey(key string) string {
      if key == "" { return b.opts.Prefix }
      return consistentJoin(b.opts.Prefix, key)
  }
  func (b *gridfsLegacyBucket) denormalizeKey(key string) string {
      if b.opts.Prefix != "" && len(key) > len(b.opts.Prefix)+1 {
          key = key[len(b.opts.Prefix)+1:]
      }
      return key
  }
  \<close>
  The slice \<open>key[n:]\<close> is in range under the guard, so it is \<open>drop n key\<close>.
\<close>

definition normalizeKey :: "env \<Rightarrow> GridFSOptions \<Rightarrow> string \<Rightarrow> string" where
  "normalizeKey E b key = (if key = [] then Prefix b else consistentJoin E (Prefix b) key)"

definition denormalizeKey :: "GridFSOptions \<Rightarrow> string \<Rightarrow> string" where
  "denormalizeKey b key =
     (if Prefix b \<noteq> [] \<and> length key > length (Prefix b) + 1
      then drop (length (Prefix b) + 1) key
      else key)"

section \<open>The driver\<close>

text \<open>
  \<open>GridFS.Open\<close>: the most recent file of that name, \<open>ErrNotFound\<close> when there is none.
\<close>

definition gridfs_Open :: "string \<Rightarrow> world \<Rightarrow> (error + gridfile) \<times> world" where
  "gridfs_Open name w =
     (let w' = emit (DbOpen name) w in
      case fault w (DbOpen name) of
        Some e \<Rightarrow> (Inl e, w')
      | None \<Rightarrow>
          (case List.find (\<lambda>f. gf_name f = name) (rev (files w)) of
             None \<Rightarrow> (Inl ErrNotFound, w')
           | Some f \<Rightarrow> (Inr f, w')))"

text \<open>\<open>GridFS.Create\<close>: a file handle open for writing, nothing stored yet.\<close>

definition gridfs_Create :: "string \<Rightarrow> world \<Rightarrow> (error + unit) \<times> world" where
  "gridfs_Create name w =
     (let w' = emit (DbCreate name) w in
      case fault w (DbCreate name) of
        Some e \<Rightarrow> (Inl e, w')
      | None \<Rightarrow> (Inr (), w'))"

text \<open>\<open>GridFS.Remove\<close>: deletes every file of that name.\<close>

definition gridfs_Remove :: "string \<Rightarrow> world \<Rightarrow> error option \<times> world" where
  "gridfs_Remove name w =
     (let w' = emit (DbRemove name) w in
      case fault w (DbRemove name) of
        Some e \<Rightarrow> (Some e, w')
      | None \<Rightarrow> (None, w'\<lparr>files := filter (\<lambda>f. gf_name f \<noteq> name) (files w)\<rparr>))"

text \<open>
  \<open>Find(q).Iter()\<close>: the query is sent when the iterator is made. \<open>Find(nil)\<close> selects
  every file, a regular-expression query those whose name the database matches.
\<close>

definition gridfs_Find :: "env \<Rightarrow> string option \<Rightarrow> world \<Rightarrow> cursor \<times> world" where
  "gridfs_Find E q w =
     (let w' = emit (DbFind q) w in
      case fault w (DbFind q) of
        Some e \<Rightarrow> (Cursor [] (Some e), w')
      | None \<Rightarrow>
          (Cursor (case q of
                     None \<Rightarrow> files w
                   | Some pat \<Rightarrow> filter (\<lambda>f. regexMatch E pat (gf_name f)) (files w))
                  None, w'))"

text \<open>\<open>GridFS.OpenNext(iter, &f)\<close>: the next document and the advanced cursor, if any.\<close>

definition OpenNext :: "cursor \<Rightarrow> (gridfile \<times> cursor) option" where
  "OpenNext c =
     (case pending c of
        [] \<Rightarrow> None
      | f # fs \<Rightarrow> Some (f, Cursor fs (broken c)))"

section \<open>Streams\<close>

text \<open>
  What the bucket writes to and reads from: the \<open>mockWriteCloser\<close> of a dry run, a
  \<open>legacyGridFSFile\<close> made by \<open>gridfs.Create\<close> (its name and the bytes written so
  far) or by \<open>gridfs.Open\<close> (the stored file), and a local \<open>*os.File\<close> made by
  \<open>os.Create\<close> (its path).
\<close>

datatype stream =
    MockWriteCloser
  | Created string string
  | Opened gridfile
  | OsFile string

text \<open>
  \<open>openFile\<close> derives a cancellable context, clones the session and starts a
  goroutine that closes the clone when the context ends; none of this changes what is stored, and
  it is left out.
  \<^verbatim>\<open>
  normalizedName := b.normalizeKey(name)
  if create { file, err = gridfs.Create(normalizedName) }
  else      { file, err = gridfs.Open(normalizedName) }
  if err != nil {
      ses.Close()
      return nil, errors.Wrapf(err, "couldn't open %s/%s", b.opts.Name, normalizedName)
  }
  \<close>
\<close>

definition openFile_msg :: "GridFSOptions \<Rightarrow> string \<Rightarrow> string" where
  "openFile_msg b normalizedName =
     ''couldn'' @ [CHR 0x27] @ ''t open '' @ Name b @ ''/'' @ normalizedName"

definition openFile ::
  "env \<Rightarrow> GridFSOptions \<Rightarrow> string \<Rightarrow> bool \<Rightarrow> world \<Rightarrow> (error + stream) \<times> world" where
  "openFile E b name create w =
     (let normalizedName = normalizeKey E b name in
      if create then
        (case gridfs_Create normalizedName w of
           (Inl err, w') \<Rightarrow> (Inl (Wrap err (openFile_msg b normalizedName)), w')
         | (Inr _, w') \<Rightarrow> (Inr (Created normalizedName []), w'))
      else
        (case gridfs_Open normalizedName w of
           (Inl err, w') \<Rightarrow> (Inl (Wrap err (openFile_msg b normalizedName)), w')
         | (Inr file, w') \<Rightarrow> (Inr (Opened file), w')))"

text \<open>
  Modelled from the spec: \<open>mockWriteCloser\<close>, the writer of a dry run, is not among the
  sources. The spec has it discard all bytes and report success on close.
\<close>

definition mock_Write :: "string \<Rightarrow> error option" where
  "mock_Write bs = None"

definition mock_Close :: "error option" where
  "mock_Close = None"

text \<open>
  Writing bytes to a stream. The mock does as above; a created GridFS file appends them;
  a local file holds them on disk. A stream that was opened for reading takes no bytes.
\<close>

definition stream_Write :: "stream \<Rightarrow> string \<Rightarrow> world \<Rightarrow> (error option \<times> stream) \<times> world" where
  "stream_Write dst bs w =
     (case dst of
        MockWriteCloser \<Rightarrow> ((mock_Write bs, MockWriteCloser), w)
      | Created n d \<Rightarrow>
          (let w' = emit (DbWrite n) w in
           case fault w (DbWrite n) of
             Some e \<Rightarrow> ((Some e, Created n d), w')
           | None \<Rightarrow> ((None, Created n (d @ bs)), w'))
      | Opened f \<Rightarrow> ((Some (Fault ''file is open for reading''), Opened f), w)
      | OsFile p \<Rightarrow>
          (let w' = emit (OsWrite p) w in
           case fault w (OsWrite p) of
             Some e \<Rightarrow> ((Some e, OsFile p), w')
           | None \<Rightarrow>
               ((None, OsFile p),
                w'\<lparr>disk := (disk w)(p \<mapsto> (case disk w p of None \<Rightarrow> bs | Some d \<Rightarrow> d @ bs))\<rparr>)))"

text \<open>
  \<open>io.Copy(dst, src)\<close>: the bytes read are written, a failed write ends the copy with
  its error, and otherwise a read error of the source is the result.
\<close>

definition io_Copy :: "stream \<Rightarrow> reader \<Rightarrow> world \<Rightarrow> (error option \<times> stream) \<times> world" where
  "io_Copy dst src w =
     (if rd_bytes src = [] then ((rd_err src, dst), w)
      else
        (case stream_Write dst (rd_bytes src) w of
           ((Some e, dst'), w') \<Rightarrow> ((Some e, dst'), w')
         | ((None, dst'), w') \<Rightarrow> ((rd_err src, dst'), w')))"

text \<open>
  \<open>Close\<close>. \<open>legacyGridFSFile.Close\<close> cancels the derived
  context and returns \<open>errors.WithStack(f.GridFile.Close())\<close>; closing a created file
  stores it, with the checksum the driver records for its bytes.
\<close>

definition stream_Close :: "env \<Rightarrow> stream \<Rightarrow> world \<Rightarrow> error option \<times> world" where
  "stream_Close E s w =
     (case s of
        MockWriteCloser \<Rightarrow> (mock_Close, w)
      | Created n d \<Rightarrow>
          (let w' = emit (DbClose n) w in
           case fault w (DbClose n) of
             Some e \<Rightarrow> (withStack (Some e), w')
           | None \<Rightarrow>
               (withStack None,
                w'\<lparr>files := files w @ [\<lparr>gf_name = n, gf_md5 = digest E d, gf_data = d\<rparr>]\<rparr>))
      | Opened f \<Rightarrow>
          (let w' = emit (DbClose (gf_name f)) w in
           (withStack (fault w (DbClose (gf_name f))), w'))
      | OsFile p \<Rightarrow>
          (let w' = emit (OsClose p) w in (fault w (OsClose p), w')))"

text \<open>The bytes a stream delivers when it is read.\<close>

definition stream_reader :: "stream \<Rightarrow> world \<Rightarrow> reader" where
  "stream_reader s w =
     (case s of
        Opened f \<Rightarrow>
          (case fault w (DbRead (gf_name f)) of
             None \<Rightarrow> Delivers (gf_data f) None
           | Some e \<Rightarrow> Delivers [] (Some e))
      | _ \<Rightarrow> Delivers [] (Some (Fault ''file is not open for reading'')))"

section \<open>The operating system\<close>

definition os_Open :: "string \<Rightarrow> world \<Rightarrow> (error + reader) \<times> world" where
  "os_Open path w =
     (let w' = emit (OsOpen path) w in
      case fault w (OsOpen path) of
        Some e \<Rightarrow> (Inl e, w')
      | None \<Rightarrow>
          (case disk w path of
             None \<Rightarrow> (Inl ErrNotExist, w')
           | Some d \<Rightarrow>
               (case fault w (OsRead path) of
                  None \<Rightarrow> (Inr (Delivers d None), w')
                | Some e \<Rightarrow> (Inr (Delivers [] (Some e)), w'))))"

definition os_MkdirAll :: "string \<Rightarrow> world \<Rightarrow> error option \<times> world" where
  "os_MkdirAll dir w = (fault w (OsMkdirAll dir), emit (OsMkdirAll dir) w)"

text \<open>\<open>os.Create\<close> truncates the file.\<close>

definition os_Create :: "string \<Rightarrow> world \<Rightarrow> (error + stream) \<times> world" where
  "os_Create path w =
     (let w' = emit (OsCreate path) w in
      case fault w (OsCreate path) of
        Some e \<Rightarrow> (Inl e, w')
      | None \<Rightarrow> (Inr (OsFile path), w'\<lparr>disk := (disk w)(path \<mapsto> [])\<rparr>))"

section \<open>The bucket\<close>

text \<open>
  A \<open>gridfsLegacyBucket\<close> is its options and a session; the session is the access to
  the \<open>world\<close>, so every operation takes the options \<open>b\<close> and the world, and returns its
  result with the world it leaves. Each operation starts by handing a message to the
  logger when \<open>Verbose\<close> is set; the message has no effect on the results and is left
  out. A context enters an operation as the value of \<open>ctx.Err()\<close> at the call, and only
  where the operation reads it.
\<close>

definition quoted :: "string \<Rightarrow> string" where
  "quoted s = [CHR 0x27] @ s @ [CHR 0x27]"

definition Writer :: "env \<Rightarrow> GridFSOptions \<Rightarrow> string \<Rightarrow> world \<Rightarrow> (error + stream) \<times> world" where
  "Writer E b name w =
     (if DryRun b then (Inr MockWriteCloser, w) else openFile E b name True w)"

definition Reader :: "env \<Rightarrow> GridFSOptions \<Rightarrow> string \<Rightarrow> world \<Rightarrow> (error + stream) \<times> world" where
  "Reader E b name w = openFile E b name False w"

text \<open>
  \<^verbatim>\<open>
  if b.opts.DryRun { file = &mockWriteCloser{} }
  else {
      file, err = b.openFile(ctx, name, true)
      if err != nil { return errors.Wrap(err, "problem creating file") }
  }
  _, err = io.Copy(file, input)
  if err != nil { return errors.Wrap(err, "problem copying data") }
  return errors.Wrap(file.Close(), "problem flushing data to file")
  \<close>
\<close>

definition Put :: "env \<Rightarrow> GridFSOptions \<Rightarrow> string \<Rightarrow> reader \<Rightarrow> world \<Rightarrow> error option \<times> world" where
  "Put E b name input w =
     (case (if DryRun b then (Inr MockWriteCloser, w) else openFile E b name True w) of
        (Inl err, w1) \<Rightarrow> (Some (Wrap err ''problem creating file''), w1)
      | (Inr file, w1) \<Rightarrow>
          (case io_Copy file input w1 of
             ((Some err, file'), w2) \<Rightarrow> (Some (Wrap err ''problem copying data''), w2)
           | ((None, file'), w2) \<Rightarrow>
               (case stream_Close E file' w2 of
                  (r, w3) \<Rightarrow> (wrap r ''problem flushing data to file'', w3))))"

definition Get :: "env \<Rightarrow> GridFSOptions \<Rightarrow> string \<Rightarrow> world \<Rightarrow> (error + stream) \<times> world" where
  "Get E b name w = Reader E b name w"

text \<open>
  \<^verbatim>\<open>
  f, err := os.Open(path)
  if err != nil { return errors.Wrapf(err, "problem opening file %s", name) }
  defer f.Close()
  return errors.WithStack(b.Put(ctx, name, f))
  \<close>
\<close>

definition Upload :: "env \<Rightarrow> GridFSOptions \<Rightarrow> string \<Rightarrow> string \<Rightarrow> world \<Rightarrow> error option \<times> world" where
  "Upload E b name path w =
     (case os_Open path w of
        (Inl err, w1) \<Rightarrow> (Some (Wrap err (''problem opening file '' @ name)), w1)
      | (Inr f, w1) \<Rightarrow>
          (case Put E b name f w1 of
             (r, w2) \<Rightarrow> (withStack r, emit (OsClose path) w2)))"

text \<open>
  \<^verbatim>\<open>
  reader, err := b.Reader(ctx, name)
  if err != nil { return errors.WithStack(err) }
  if err = os.MkdirAll(filepath.Dir(path), 0700); err != nil {
      return errors.Wrapf(err, "problem creating enclosing directory for '%s'", path)
  }
  f, err := os.Create(path)
  if err != nil { return errors.Wrapf(err, "problem creating file '%s'", path) }
  _, err = io.Copy(f, reader)
  if err != nil { _ = f.Close(); return errors.Wrap(err, "problem copying data") }
  return errors.WithStack(f.Close())
  \<close>
\<close>

definition Download :: "env \<Rightarrow> GridFSOptions \<Rightarrow> string \<Rightarrow> string \<Rightarrow> world \<Rightarrow> error option \<times> world" where
  "Download E b name path w =
     (case Reader E b name w of
        (Inl err, w1) \<Rightarrow> (Some (WithStack err), w1)
      | (Inr reader, w1) \<Rightarrow>
          (case os_MkdirAll (filepathDir E path) w1 of
             (Some err, w2) \<Rightarrow>
               (Some (Wrap err (''problem creating enclosing directory for '' @ quoted path)), w2)
           | (None, w2) \<Rightarrow>
               (case os_Create path w2 of
                  (Inl err, w3) \<Rightarrow> (Some (Wrap err (''problem creating file '' @ quoted path)), w3)
                | (Inr f, w3) \<Rightarrow>
                    (case io_Copy f (stream_reader reader w3) w3 of
                       ((Some err, f'), w4) \<Rightarrow>
                         (Some (Wrap err ''problem copying data''), snd (stream_Close E f' w4))
                     | ((None, f'), w4) \<Rightarrow>
                         (case stream_Close E f' w4 of (r, w5) \<Rightarrow> (withStack r, w5))))))"

subsection \<open>Removal\<close>

text \<open>
  \<^verbatim>\<open>
  if b.opts.DryRun { return nil }
  return errors.Wrapf(b.gridFS().Remove(b.normalizeKey(key)), "problem removing file %s", key)
  \<close>
\<close>

definition Remove :: "env \<Rightarrow> GridFSOptions \<Rightarrow> string \<Rightarrow> world \<Rightarrow> error option \<times> world" where
  "Remove E b k w =
     (if DryRun b then (None, w)
      else (case gridfs_Remove (normalizeKey E b k) w of
              (r, w') \<Rightarrow> (wrap r (''problem removing file '' @ k), w')))"

text \<open>
  The catcher of \<open>grip.NewBasicCatcher()\<close>: the errors added so far. \<open>Add\<close> ignores
  \<open>nil\<close>; \<open>Resolve\<close> is \<open>nil\<close> when nothing was added and one error made of all of them
  otherwise.
\<close>

definition catcher_Add :: "error list \<Rightarrow> error option \<Rightarrow> error list" where
  "catcher_Add c e = (case e of None \<Rightarrow> c | Some x \<Rightarrow> c @ [x])"

definition catcher_Resolve :: "error list \<Rightarrow> error option" where
  "catcher_Resolve c = (if c = [] then None else Some (Multi c))"

text \<open>
  \<^verbatim>\<open>
  catcher := grip.NewBasicCatcher()
  for _, key := range keys { catcher.Add(b.Remove(ctx, key)) }
  return catcher.Resolve()
  \<close>
\<close>

fun RemoveMany_loop ::
  "env \<Rightarrow> GridFSOptions \<Rightarrow> string list \<Rightarrow> error list \<Rightarrow> world \<Rightarrow> error list \<times> world" where
  "RemoveMany_loop E b [] catcher w = (catcher, w)"
| "RemoveMany_loop E b (k # ks) catcher w =
     (case Remove E b k w of
        (r, w') \<Rightarrow> RemoveMany_loop E b ks (catcher_Add catcher r) w')"

definition RemoveMany :: "env \<Rightarrow> GridFSOptions \<Rightarrow> string list \<Rightarrow> world \<Rightarrow> error option \<times> world" where
  "RemoveMany E b keys w =
     (case RemoveMany_loop E b keys [] w of
        (catcher, w') \<Rightarrow> (catcher_Resolve catcher, w'))"

subsection \<open>Listing\<close>

record bucketItemImpl =
  bi_bucket :: string
  bi_key :: string

text \<open>
  The iterator. Its \<open>ctx\<close> field refers to the context \<open>List\<close> was called with; what
  \<open>Next\<close> reads from it is the state of that context at the time of the call, which
  \<open>Next\<close> takes as an argument. The \<open>bucket\<close> field is the bucket \<open>b\<close> itself.
\<close>

record legacyGridFSIterator =
  it_err :: "error option"
  it_item :: "bucketItemImpl option"
  it_iter :: cursor

text \<open>
  \<^verbatim>\<open>
  if ctx.Err() != nil { return nil, errors.New("operation canceled") }
  if prefix == "" {
      return &legacyGridFSIterator{ctx: ctx, iter: b.gridFS().Find(nil).Iter(), bucket: b}, nil
  }
  return &legacyGridFSIterator{
      ctx:    ctx,
      iter:   b.gridFS().Find(bson.M{"filename": bson.RegEx{
                  Pattern: fmt.Sprintf("^%s.*", b.normalizeKey(prefix))}}).Iter(),
      bucket: b,
  }, nil
  \<close>
\<close>

definition List_query :: "env \<Rightarrow> GridFSOptions \<Rightarrow> string \<Rightarrow> string option" where
  "List_query E b pfx =
     (if pfx = [] then None else Some (''^'' @ normalizeKey E b pfx @ ''.*''))"

definition List ::
  "env \<Rightarrow> GridFSOptions \<Rightarrow> error option \<Rightarrow> string \<Rightarrow> world
     \<Rightarrow> (error + legacyGridFSIterator) \<times> world" where
  "List E b ctx pfx w =
     (if ctx \<noteq> None then (Inl (New ''operation canceled''), w)
      else (case gridfs_Find E (List_query E b pfx) w of
              (c, w') \<Rightarrow> (Inr \<lparr>it_err = None, it_item = None, it_iter = c\<rparr>, w')))"

definition Err :: "legacyGridFSIterator \<Rightarrow> error option" where
  "Err it = it_err it"

definition Item :: "legacyGridFSIterator \<Rightarrow> bucketItemImpl option" where
  "Item it = it_item it"

text \<open>
  \<^verbatim>\<open>
  if iter.ctx.Err() != nil { return false }
  if ctx.Err() != nil { return false }
  var f *mgo.GridFile
  gridfs := iter.bucket.gridFS()
  if !gridfs.OpenNext(iter.iter, &f) { return false }
  iter.item = &bucketItemImpl{
      bucket: iter.bucket.opts.Prefix,
      key:    iter.bucket.denormalizeKey(f.Name()),
      b:      iter.bucket,
  }
  return true
  \<close>
  \<open>ictx\<close> is \<open>iter.ctx.Err()\<close> and \<open>ctx\<close> is \<open>ctx.Err()\<close> at the call.
\<close>

definition Next ::
  "GridFSOptions \<Rightarrow> error option \<Rightarrow> error option \<Rightarrow> legacyGridFSIterator
     \<Rightarrow> bool \<times> legacyGridFSIterator" where
  "Next b ictx ctx it =
     (if ictx \<noteq> None then (False, it)
      else if ctx \<noteq> None then (False, it)
      else (case OpenNext (it_iter it) of
              None \<Rightarrow> (False, it)
            | Some (f, c') \<Rightarrow>
                (True, it\<lparr>it_item := Some \<lparr>bi_bucket = Prefix b,
                                             bi_key = denormalizeKey b (gf_name f)\<rparr>,
                          it_iter := c'\<rparr>)))"

text \<open>\<open>n\<close> calls of \<open>Next\<close> in a row, with both contexts live: their results in order.\<close>

fun Next_times :: "GridFSOptions \<Rightarrow> nat \<Rightarrow> legacyGridFSIterator \<Rightarrow> bool list \<times> legacyGridFSIterator" where
  "Next_times b 0 it = ([], it)"
| "Next_times b (Suc n) it =
     (case Next b None None it of
        (r, it') \<Rightarrow> (case Next_times b n it' of (rs, it'') \<Rightarrow> (r # rs, it'')))"

subsection \<open>Push and Pull\<close>

text \<open>
  \<^verbatim>\<open>
  var re *regexp.Regexp
  if opts.Exclude != "" {
      re, err = regexp.Compile(opts.Exclude)
      if err != nil { return errors.Wrap(err, "problem compiling exclude regex") }
  }
  \<close>
  and the test \<open>re != nil && re.MatchString(path)\<close>.
\<close>

definition compile_exclude :: "env \<Rightarrow> string \<Rightarrow> error + (string \<Rightarrow> bool) option" where
  "compile_exclude E ex =
     (if ex \<noteq> [] then
        (case regexpCompile E ex of
           Inl err \<Rightarrow> Inl (Wrap err ''problem compiling exclude regex'')
         | Inr m \<Rightarrow> Inr (Some m))
      else Inr None)"

definition excluded :: "(string \<Rightarrow> bool) option \<Rightarrow> string \<Rightarrow> bool" where
  "excluded re path = (case re of None \<Rightarrow> False | Some m \<Rightarrow> m path)"

text \<open>
  The body of the loop of \<open>Push\<close>, for one local path:
  \<^verbatim>\<open>
  if re != nil && re.MatchString(path) { continue }
  target := consistentJoin(opts.Remote, path)
  file, err := gridfs.Open(b.normalizeKey(target))
  if err == mgo.ErrNotFound {
      if err = b.Upload(ctx, target, filepath.Join(opts.Local, path)); err != nil {
          return errors.Wrapf(err, "problem uploading '%s' to '%s'", path, target)
      }
      continue
  } else if err != nil {
      return errors.Wrapf(err, "problem finding '%s'", target)
  }
  localmd5, err := md5sum(filepath.Join(opts.Local, path))
  if err != nil { return errors.Wrapf(err, "problem checksumming '%s'", path) }
  if file.MD5() != localmd5 {
      if err = b.Upload(ctx, target, filepath.Join(opts.Local, path)); err != nil {
          return errors.Wrapf(err, "problem uploading '%s' to '%s'", path, target)
      }
  }
  \<close>
  The result \<open>None\<close> lets the loop go on; \<open>Some e\<close> is what \<open>Push\<close> returns at once.
\<close>

definition upload_msg :: "string \<Rightarrow> string \<Rightarrow> string" where
  "upload_msg path target = ''problem uploading '' @ quoted path @ '' to '' @ quoted target"

definition Push_file ::
  "env \<Rightarrow> GridFSOptions \<Rightarrow> SyncOptions \<Rightarrow> (string \<Rightarrow> bool) option \<Rightarrow> string \<Rightarrow> world
     \<Rightarrow> error option \<times> world" where
  "Push_file E b opts re path w =
     (if excluded re path then (None, w)
      else
        (let target = consistentJoin E (Remote opts) path in
         case gridfs_Open (normalizeKey E b target) w of
           (Inl err, w1) \<Rightarrow>
             (if err = ErrNotFound then
                (case Upload E b target (filepathJoin E (Local opts) path) w1 of
                   (r, w2) \<Rightarrow> (wrap r (upload_msg path target), w2))
              else (Some (Wrap err (''problem finding '' @ quoted target)), w1))
         | (Inr file, w1) \<Rightarrow>
             (case md5sum E w1 (filepathJoin E (Local opts) path) of
                Inl err \<Rightarrow> (Some (Wrap err (''problem checksumming '' @ quoted path)), w1)
              | Inr localmd5 \<Rightarrow>
                  (if gf_md5 file \<noteq> localmd5 then
                     (case Upload E b target (filepathJoin E (Local opts) path) w1 of
                        (r, w2) \<Rightarrow> (wrap r (upload_msg path target), w2))
                   else (None, w1)))))"

fun Push_loop ::
  "env \<Rightarrow> GridFSOptions \<Rightarrow> SyncOptions \<Rightarrow> (string \<Rightarrow> bool) option \<Rightarrow> string list \<Rightarrow> world
     \<Rightarrow> error option \<times> world" where
  "Push_loop E b opts re [] w = (None, w)"
| "Push_loop E b opts re (path # paths) w =
     (case Push_file E b opts re path w of
        (Some e, w') \<Rightarrow> (Some e, w')
      | (None, w') \<Rightarrow> Push_loop E b opts re paths w')"

text \<open>
  \<^verbatim>\<open>
  localPaths, err := walkLocalTree(ctx, opts.Local)
  if err != nil { return errors.Wrap(err, "problem finding local paths") }
  ... the loop ...
  if (b.opts.DeleteOnPush || b.opts.DeleteOnSync) && !b.opts.DryRun {
      return errors.Wrap(deleteOnPush(ctx, localPaths, opts.Remote, b),
                         "problem with delete on sync after push")
  }
  return nil
  \<close>
\<close>

definition Push :: "env \<Rightarrow> GridFSOptions \<Rightarrow> SyncOptions \<Rightarrow> world \<Rightarrow> error option \<times> world" where
  "Push E b opts w =
     (case compile_exclude E (Exclude opts) of
        Inl e \<Rightarrow> (Some e, w)
      | Inr re \<Rightarrow>
          (case walkLocalTree E w (Local opts) of
             Inl err \<Rightarrow> (Some (Wrap err ''problem finding local paths''), w)
           | Inr localPaths \<Rightarrow>
               (case Push_loop E b opts re localPaths w of
                  (Some e, w1) \<Rightarrow> (Some e, w1)
                | (None, w1) \<Rightarrow>
                    (if (DeleteOnPush b \<or> DeleteOnSync b) \<and> \<not> DryRun b then
                       (case deleteOnPush E localPaths (Remote opts) b w1 of
                          (r, w2) \<Rightarrow> (wrap r ''problem with delete on sync after push'', w2))
                     else (None, w1)))))"

text \<open>
  Go's \<open>s[n:]\<close>: the string from index \<open>n\<close> on, and a run-time panic when
  \<open>n > len(s)\<close>.
\<close>

definition slice_from :: "nat \<Rightarrow> string \<Rightarrow> string option" where
  "slice_from n s = (if n \<le> length s then Some (drop n s) else None)"

text \<open>
  How one round of the loop of \<open>Pull\<close> ends: the loop goes on, \<open>Pull\<close> returns an
  error, or the goroutine panics.
\<close>

datatype flow = Continue | Return error | Panic

text \<open>
  The body of the loop of \<open>Pull\<close>, for one listed file \<open>f\<close>:
  \<^verbatim>\<open>
  if re != nil && re.MatchString(f.Name()) { continue }
  denormalizedName := b.denormalizeKey(f.Name())
  fn := denormalizedName[len(opts.Remote)+1:]
  name := filepath.Join(opts.Local, fn)
  keys = append(keys, fn)
  checksum, err = md5sum(name)
  if os.IsNotExist(errors.Cause(err)) {
      if err = b.Download(ctx, denormalizedName, name); err != nil {
          return errors.WithStack(err)
      }
      continue
  } else if err != nil {
      return errors.WithStack(err)
  }
  if f.MD5() != checksum {
      if err = b.Download(ctx, denormalizedName, name); err != nil {
          return errors.WithStack(err)
      }
  }
  \<close>
\<close>

definition download_flow :: "error option \<Rightarrow> flow" where
  "download_flow r = (case r of None \<Rightarrow> Continue | Some err \<Rightarrow> Return (WithStack err))"

definition Pull_file ::
  "env \<Rightarrow> GridFSOptions \<Rightarrow> SyncOptions \<Rightarrow> (string \<Rightarrow> bool) option \<Rightarrow> gridfile
     \<Rightarrow> string list \<Rightarrow> world \<Rightarrow> flow \<times> string list \<times> world" where
  "Pull_file E b opts re f keys w =
     (if excluded re (gf_name f) then (Continue, keys, w)
      else
        (let denormalizedName = denormalizeKey b (gf_name f) in
         case slice_from (length (Remote opts) + 1) denormalizedName of
           None \<Rightarrow> (Panic, keys, w)
         | Some fn \<Rightarrow>
             (let name = filepathJoin E (Local opts) fn;
                  keys' = keys @ [fn]
              in case md5sum E w name of
                   Inl err \<Rightarrow>
                     (if isNotExist (cause err) then
                        (case Download E b denormalizedName name w of
                           (r, w') \<Rightarrow> (download_flow r, keys', w'))
                      else (Return (WithStack err), keys', w))
                 | Inr checksum \<Rightarrow>
                     (if gf_md5 f \<noteq> checksum then
                        (case Download E b denormalizedName name w of
                           (r, w') \<Rightarrow> (download_flow r, keys', w'))
                      else (Continue, keys', w)))))"

text \<open>
  \<open>for gridfs.OpenNext(iterimpl.iter, &f) { ... }\<close>: the loop runs while the cursor
  delivers a file, and stops early when its body returns or panics.
\<close>

function Pull_loop ::
  "env \<Rightarrow> GridFSOptions \<Rightarrow> SyncOptions \<Rightarrow> (string \<Rightarrow> bool) option \<Rightarrow> cursor
     \<Rightarrow> string list \<Rightarrow> world \<Rightarrow> flow \<times> string list \<times> cursor \<times> world" where
  "Pull_loop E b opts re c keys w =
     (case OpenNext c of
        None \<Rightarrow> (Continue, keys, c, w)
      | Some (f, c') \<Rightarrow>
          (case Pull_file E b opts re f keys w of
             (Continue, keys', w') \<Rightarrow> Pull_loop E b opts re c' keys' w'
           | (Return e, keys', w') \<Rightarrow> (Return e, keys', c', w')
           | (Panic, keys', w') \<Rightarrow> (Panic, keys', c', w')))"
  by pat_completeness auto
termination
  by (relation "measure (\<lambda>(E, b, opts, re, c, keys, w). length (pending c))")
     (auto simp: OpenNext_def split: list.splits)

text \<open>What a call of \<open>Pull\<close> comes to: it returns, or it panics.\<close>

datatype outcome = Returned "error option" | Panicked

text \<open>
  \<^verbatim>\<open>
  iter, err := b.List(ctx, opts.Remote)
  if err != nil { return errors.WithStack(err) }
  iterimpl, ok := iter.(*legacyGridFSIterator)
  if !ok { return errors.New("programmer error") }
  ... the loop ...
  if err = iterimpl.iter.Err(); err != nil {
      return errors.Wrap(err, "problem iterating bucket")
  }
  if (b.opts.DeleteOnPull || b.opts.DeleteOnSync) && !b.opts.DryRun {
      return errors.Wrap(deleteOnPull(ctx, keys, opts.Local),
                         "problem with delete on sync after pull")
  }
  return nil
  \<close>
  \<open>List\<close> of this bucket always gives a \<open>*legacyGridFSIterator\<close>, so the type
  assertion holds.
\<close>

definition Pull ::
  "env \<Rightarrow> GridFSOptions \<Rightarrow> error option \<Rightarrow> SyncOptions \<Rightarrow> world \<Rightarrow> outcome \<times> world" where
  "Pull E b ctx opts w =
     (case compile_exclude E (Exclude opts) of
        Inl e \<Rightarrow> (Returned (Some e), w)
      | Inr re \<Rightarrow>
          (case List E b ctx (Remote opts) w of
             (Inl err, w1) \<Rightarrow> (Returned (Some (WithStack err)), w1)
           | (Inr iterimpl, w1) \<Rightarrow>
               (case Pull_loop E b opts re (it_iter iterimpl) [] w1 of
                  (Panic, keys, c, w2) \<Rightarrow> (Panicked, w2)
                | (Return e, keys, c, w2) \<Rightarrow> (Returned (Some e), w2)
                | (Continue, keys, c, w2) \<Rightarrow>
                    (case broken c of
                       Some err \<Rightarrow> (Returned (Some (Wrap err ''problem iterating bucket'')), w2)
                     | None \<Rightarrow>
                         (if (DeleteOnPull b \<or> DeleteOnSync b) \<and> \<not> DryRun b then
                            (case deleteOnPull E keys (Local opts) w2 of
                               (r, w3) \<Rightarrow>
                                 (Returned (wrap r ''problem with delete on sync after pull''), w3))
                          else (Returned None, w2))))))"

section \<open>Regular expressions of the database, in part\<close>

text \<open>
  The database evaluates the pattern of a query as a Perl-compatible regular
  expression and selects a name when the pattern matches somewhere in it. The part of
  that language needed to run \<open>List\<close> on examples is modelled: a pattern that may start
  with the anchor \<open>^\<close>, followed by ordinary characters and dots, each of which may
  carry a star. A dot matches any character but a line feed. For a pattern with any
  other special character the result is \<open>None\<close>: nothing is said about it.
\<close>

datatype atom = Lit char | Dot

datatype piece = One atom | Star atom

definition special :: "char \<Rightarrow> bool" where
  "special c = (c \<in> set (CHR 0x5C # ''^$.|?*+()[]{}''))"

definition atom_of :: "char \<Rightarrow> atom option" where
  "atom_of c = (if c = CHR ''.'' then Some Dot else if special c then None else Some (Lit c))"

fun parse_pieces :: "string \<Rightarrow> piece list option" where
  "parse_pieces [] = Some []"
| "parse_pieces [c] = map_option (\<lambda>a. [One a]) (atom_of c)"
| "parse_pieces (c # d # cs) =
     (case atom_of c of
        None \<Rightarrow> None
      | Some a \<Rightarrow>
          (if d = CHR ''*'' then map_option ((#) (Star a)) (parse_pieces cs)
           else map_option ((#) (One a)) (parse_pieces (d # cs))))"

definition atom_ok :: "atom \<Rightarrow> char \<Rightarrow> bool" where
  "atom_ok a c = (case a of Lit x \<Rightarrow> c = x | Dot \<Rightarrow> c \<noteq> CHR 0x0A)"

text \<open>\<open>match_pieces ps s\<close>: the pieces match a prefix of \<open>s\<close>.\<close>

fun match_pieces :: "piece list \<Rightarrow> string \<Rightarrow> bool" where
  "match_pieces [] s = True"
| "match_pieces (One a # ps) [] = False"
| "match_pieces (One a # ps) (c # cs) = (atom_ok a c \<and> match_pieces ps cs)"
| "match_pieces (Star a # ps) [] = match_pieces ps []"
| "match_pieces (Star a # ps) (c # cs) =
     (match_pieces ps (c # cs) \<or> (atom_ok a c \<and> match_pieces (Star a # ps) cs))"

definition pcre_search :: "string \<Rightarrow> string \<Rightarrow> bool option" where
  "pcre_search pat s =
     (case pat of
        [] \<Rightarrow> Some True
      | c # body \<Rightarrow>
          (if c = CHR ''^'' then map_option (\<lambda>ps. match_pieces ps s) (parse_pieces body)
           else map_option (\<lambda>ps. list_ex (match_pieces ps) (suffixes s)) (parse_pieces pat)))"

section \<open>An instance of the collaborators\<close>

text \<open>
  Modelled from the spec: \<open>consistentJoin\<close> is not among the sources. The spec has it
  join prefix and key with a single separator, collapsing duplicate separators; an empty
  prefix adds nothing. It serves to run the model on examples; the theorems hold for any
  join, or say what they ask of it.
\<close>

fun collapse :: "string \<Rightarrow> string" where
  "collapse (c # d # cs) =
     (if c = CHR ''/'' \<and> d = CHR ''/'' then collapse (d # cs) else c # collapse (d # cs))"
| "collapse cs = cs"

definition spec_join :: "string \<Rightarrow> string \<Rightarrow> string" where
  "spec_join p k = collapse (if p = [] then k else p @ ''/'' @ k)"

text \<open>
  Modelled from the spec: \<open>md5sum\<close> is not among the sources. The spec has it hash the
  bytes of a local file, and report a missing file as such. The hash itself is a
  parameter; a missing file gives the wrapped error of the operating system.
\<close>

definition spec_md5sum :: "(string \<Rightarrow> string) \<Rightarrow> world \<Rightarrow> string \<Rightarrow> error + string" where
  "spec_md5sum h w path =
     (case disk w path of
        None \<Rightarrow> Inl (Wrap ErrNotExist ''problem opening file'')
      | Some d \<Rightarrow>
          (case fault w (OsRead path) of
             None \<Rightarrow> Inr (h d)
           | Some e \<Rightarrow> Inl (Wrap e ''problem reading file'')))"

text \<open>
  \<open>filepath.Join\<close> of two elements and \<open>filepath.Dir\<close>, for slash-separated paths
  without \<open>.\<close> and \<open>..\<close> elements: \<open>Join\<close> leaves out an empty element and cleans the
  result, \<open>Dir\<close> cleans what stands before the last element; cleaning collapses
  separators and drops a trailing one.
\<close>

definition path_clean :: "string \<Rightarrow> string" where
  "path_clean s =
     (let t = collapse s;
          u = rev (dropWhile (\<lambda>c. c = CHR ''/'') (rev t))
      in if u = [] \<and> t \<noteq> [] then ''/'' else u)"

definition path_join :: "string \<Rightarrow> string \<Rightarrow> string" where
  "path_join a c =
     (if a = [] then (if c = [] then [] else path_clean c)
      else if c = [] then path_clean a
      else path_clean (a @ ''/'' @ c))"

definition path_dir :: "string \<Rightarrow> string" where
  "path_dir p =
     (let d = path_clean (rev (dropWhile (\<lambda>c. c \<noteq> CHR ''/'') (rev p)))
      in if d = [] then ''.'' else d)"

text \<open>
  The instance: the helpers as above, with the bytes themselves as their checksum and
  the regular expressions of the modelled part for the database and for \<open>regexp\<close>,
  whose \<open>Compile\<close> refuses every other pattern; no local tree, and no deletion after a
  transfer. \<open>example_env_tree\<close> is the same with a given list of local paths.
\<close>

definition example_env :: env where
  "example_env =
     \<lparr>consistentJoin = spec_join,
      md5sum = spec_md5sum (\<lambda>d. d),
      walkLocalTree = (\<lambda>w root. Inr []),
      deleteOnPush = (\<lambda>paths remote b w. (None, w)),
      deleteOnPull = (\<lambda>keys root w. (None, w)),
      regexpCompile =
        (\<lambda>p. if pcre_search p [] = None then Inl (Fault ''error parsing regexp'')
             else Inr (\<lambda>s. pcre_search p s = Some True)),
      regexMatch = (\<lambda>p s. pcre_search p s = Some True),
      filepathJoin = path_join,
      filepathDir = path_dir,
      digest = (\<lambda>d. d)\<rparr>"

definition example_env_tree :: "string list \<Rightarrow> env" where
  "example_env_tree paths = example_env\<lparr>walkLocalTree := (\<lambda>w root. Inr paths)\<rparr>"

definition example_bucket :: "string \<Rightarrow> bool \<Rightarrow> GridFSOptions" where
  "example_bucket pfx dry =
     \<lparr>Name = ''fs'', Prefix = pfx, Database = ''db'', DryRun = dry,
      DeleteOnPush = False, DeleteOnPull = False, DeleteOnSync = False, Verbose = False\<rparr>"

definition example_world :: "gridfile list \<Rightarrow> (string \<rightharpoonup> string) \<Rightarrow> (call \<Rightarrow> error option) \<Rightarrow> world" where
  "example_world fs d flt = \<lparr>files = fs, disk = d, trace = [], fault = flt\<rparr>"

definition example_file :: "string \<Rightarrow> string \<Rightarrow> gridfile" where
  "example_file n d = \<lparr>gf_name = n, gf_md5 = d, gf_data = d\<rparr>"

text \<open>Fault plans for the examples: no fault at all, or a fault on one call.\<close>

definition no_fault :: "call \<Rightarrow> error option" where
  "no_fault c = None"

definition fault_on :: "call \<Rightarrow> error \<Rightarrow> call \<Rightarrow> error option" where
  "fault_on c e x = (if x = c then Some e else None)"

section \<open>Notions for the statements\<close>

text \<open>
  What \<open>Push\<close> does once the round of the loop for one local path has ended as \<open>step\<close>,
  with the paths \<open>rest\<close> still to come: it returns the error of the step, or goes
  through the rest and then deletes if so configured.
\<close>

definition Push_finish ::
  "env \<Rightarrow> GridFSOptions \<Rightarrow> SyncOptions \<Rightarrow> (string \<Rightarrow> bool) option \<Rightarrow> string list
     \<Rightarrow> string list \<Rightarrow> error option \<times> world \<Rightarrow> error option \<times> world" where
  "Push_finish E b opts re localPaths rest step =
     (case step of
        (Some e, w') \<Rightarrow> (Some e, w')
      | (None, w') \<Rightarrow>
          (case Push_loop E b opts re rest w' of
             (Some e, w1) \<Rightarrow> (Some e, w1)
           | (None, w1) \<Rightarrow>
               (if (DeleteOnPush b \<or> DeleteOnSync b) \<and> \<not> DryRun b then
                  (case deleteOnPush E localPaths (Remote opts) b w1 of
                     (r, w2) \<Rightarrow> (wrap r ''problem with delete on sync after push'', w2))
                else (None, w1))))"

text \<open>
  \<open>Push\<close> uploads the local path \<open>path\<close>, which it reaches in the world \<open>wi\<close> after the
  paths \<open>pre\<close> and before the paths \<open>post\<close>: after the request for the stored object it
  runs \<open>Upload\<close>, whose first call opens the local file; the round ends as \<open>Upload\<close>
  does and \<open>Push\<close> goes on from there; and when \<open>Upload\<close> succeeds outside a dry run,
  the local file exists and its bytes are stored under the normalized target.
\<close>

definition Push_uploads ::
  "env \<Rightarrow> GridFSOptions \<Rightarrow> SyncOptions \<Rightarrow> (string \<Rightarrow> bool) option \<Rightarrow> world
     \<Rightarrow> string list \<Rightarrow> string \<Rightarrow> string list \<Rightarrow> world \<Rightarrow> bool" where
  "Push_uploads E b opts re w pre path post wi =
     (let target = consistentJoin E (Remote opts) path;
          nk = normalizeKey E b target;
          lp = filepathJoin E (Local opts) path;
          U = Upload E b target lp (emit (DbOpen nk) wi);
          step = (wrap (fst U) (upload_msg path target), snd U)
      in Push_loop E b opts re (pre @ [path]) w = step \<and>
         Push E b opts w = Push_finish E b opts re (pre @ path # post) post step \<and>
         prefix (trace wi @ [DbOpen nk, OsOpen lp]) (trace (snd U)) \<and>
         (fst U = None \<and> \<not> DryRun b \<longrightarrow>
            (case disk wi lp of
               None \<Rightarrow> False
             | Some d \<Rightarrow>
                 files (snd U) =
                   files wi @ [\<lparr>gf_name = nk, gf_md5 = digest E d, gf_data = d\<rparr>])))"

text \<open>
  \<open>Push\<close> skips the local path: after the request for the stored object the round is
  over without another call, and \<open>Push\<close> goes on with the paths \<open>post\<close>.
\<close>

definition Push_skips ::
  "env \<Rightarrow> GridFSOptions \<Rightarrow> SyncOptions \<Rightarrow> (string \<Rightarrow> bool) option \<Rightarrow> world
     \<Rightarrow> string list \<Rightarrow> string \<Rightarrow> string list \<Rightarrow> world \<Rightarrow> bool" where
  "Push_skips E b opts re w pre path post wi =
     (let target = consistentJoin E (Remote opts) path;
          nk = normalizeKey E b target;
          w1 = emit (DbOpen nk) wi
      in Push_loop E b opts re (pre @ [path]) w = (None, w1) \<and>
         Push E b opts w = Push_finish E b opts re (pre @ path # post) post (None, w1))"



text \<open>The errors of the keys whose removal fails, in the order of the keys.\<close>

definition failures :: "env \<Rightarrow> GridFSOptions \<Rightarrow> world \<Rightarrow> string list \<Rightarrow> error list" where
  "failures E b w keys =
     concat (map (\<lambda>k. case fst (Remove E b k w) of None \<Rightarrow> [] | Some e \<Rightarrow> [e]) keys)"

section \<open>Basic facts\<close>

lemma wrap_simps [simp]:
  "wrap None msg = None" "wrap (Some e) msg = Some (Wrap e msg)"
  "withStack None = None" "withStack (Some e) = Some (WithStack e)"
  by (simp_all add: wrap_def withStack_def)

lemma emit_simps [simp]:
  "trace (emit c w) = trace w @ [c]" "fault (emit c w) = fault w"
  "files (emit c w) = files w" "disk (emit c w) = disk w"
  by (simp_all add: emit_def)

lemma isNotExist_simps [simp]:
  "isNotExist ErrNotExist" "\<not> isNotExist (Fault x)"
  by (simp_all add: isNotExist_def)

lemma collapse_example [simp]:
  "collapse ''pre//a'' = ''pre/a''" "collapse ''pre/a/b.txt'' = ''pre/a/b.txt''"
  "collapse ''a/b.txt'' = ''a/b.txt''"
  by simp_all

lemma example_simps [simp]:
  "Prefix (example_bucket pfx dry) = pfx" "DryRun (example_bucket pfx dry) = dry"
  "Name (example_bucket pfx dry) = ''fs''"
  "DeleteOnPush (example_bucket pfx dry) = False" "DeleteOnPull (example_bucket pfx dry) = False"
  "DeleteOnSync (example_bucket pfx dry) = False"
  "files (example_world fs d flt) = fs" "disk (example_world fs d flt) = d"
  "trace (example_world fs d flt) = []" "fault (example_world fs d flt) = flt"
  "gf_name (example_file n x) = n" "gf_md5 (example_file n x) = x" "gf_data (example_file n x) = x"
  "consistentJoin example_env = spec_join" "filepathJoin example_env = path_join"
  "regexMatch example_env = (\<lambda>p s. pcre_search p s = Some True)"
  "md5sum example_env = spec_md5sum (\<lambda>d. d)"
  "filepathDir example_env = path_dir" "digest example_env = (\<lambda>d. d)"
  by (simp_all add: example_bucket_def example_world_def example_file_def example_env_def)

lemma example_env_tree_simps [simp]:
  "consistentJoin (example_env_tree paths) = spec_join"
  "filepathJoin (example_env_tree paths) = path_join"
  "regexMatch (example_env_tree paths) = (\<lambda>p s. pcre_search p s = Some True)"
  "md5sum (example_env_tree paths) = spec_md5sum (\<lambda>d. d)"
  "filepathDir (example_env_tree paths) = path_dir" "digest (example_env_tree paths) = (\<lambda>d. d)"
  "walkLocalTree (example_env_tree paths) = (\<lambda>w root. Inr paths)"
  by (simp_all add: example_env_tree_def)

lemma path_examples [simp]:
  "path_join ''out'' ''f.txt'' = ''out/f.txt''" "path_join ''out'' ''z'' = ''out/z''"
  "path_join ''out'' ''e.txt'' = ''out/e.txt''"
  "path_join ''loc'' ''a.txt'' = ''loc/a.txt''" "path_join ''loc'' ''b.txt'' = ''loc/b.txt''"
  "path_join ''out'' [] = ''out''"
  "path_dir ''out/f.txt'' = ''out''" "path_dir ''out/z'' = ''out''" "path_dir ''f.txt'' = ''.''"
  by (simp_all add: path_join_def path_dir_def path_clean_def)

text \<open>The loop of \<open>Pull\<close>, by the state of the cursor.\<close>

declare Pull_loop.simps [simp del]

lemma Pull_loop_done:
  "pending c = [] \<Longrightarrow> Pull_loop E b opts re c keys w = (Continue, keys, c, w)"
  by (subst Pull_loop.simps) (simp add: OpenNext_def)

lemma Pull_loop_step:
  "pending c = f # fs \<Longrightarrow>
     Pull_loop E b opts re c keys w =
       (case Pull_file E b opts re f keys w of
          (Continue, keys', w') \<Rightarrow> Pull_loop E b opts re (Cursor fs (broken c)) keys' w'
        | (Return e, keys', w') \<Rightarrow> (Return e, keys', Cursor fs (broken c), w')
        | (Panic, keys', w') \<Rightarrow> (Panic, keys', Cursor fs (broken c), w'))"
  by (subst Pull_loop.simps) (simp add: OpenNext_def)

section \<open>The key codec\<close>

text \<open>
  C1, as stated: for every non-empty key \<open>k\<close>, \<open>denormalizeKey (normalizeKey k) = k\<close>.
  With the join of the spec, which collapses duplicate separators, the key \<open>/a\<close> under
  the prefix \<open>pre\<close> is stored as \<open>pre/a\<close> and comes back as \<open>a\<close>.
\<close>

theorem codec_roundtrip_counterexample:
  "normalizeKey example_env (example_bucket ''pre'' False) ''/a'' = ''pre/a'' \<and>
   denormalizeKey (example_bucket ''pre'' False)
     (normalizeKey example_env (example_bucket ''pre'' False) ''/a'') \<noteq> ''/a''"
  by (simp add: normalizeKey_def denormalizeKey_def example_env_def example_bucket_def
      spec_join_def)

text \<open>
  C1, amended: \<open>normalizeKey\<close> of the empty key is the prefix as it is; and for every
  non-empty key \<open>k\<close> that the join leaves as it is, that is where \<open>consistentJoin\<close> gives
  the prefix, one separator and the key (the key alone under an empty prefix),
  \<open>denormalizeKey (normalizeKey k) = k\<close>.
\<close>

theorem codec_roundtrip:
  "normalizeKey E b [] = Prefix b \<and>
   (k \<noteq> [] \<longrightarrow>
    consistentJoin E (Prefix b) k = (if Prefix b = [] then k else Prefix b @ sep # k) \<longrightarrow>
    denormalizeKey b (normalizeKey E b k) = k)"
  by (simp add: normalizeKey_def denormalizeKey_def)

theorem codec_roundtrip_witness:
  "normalizeKey example_env (example_bucket ''pre'' False) [] = ''pre'' \<and>
   denormalizeKey (example_bucket ''pre'' False)
     (normalizeKey example_env (example_bucket ''pre'' False) ''a/b.txt'') = ''a/b.txt'' \<and>
   denormalizeKey (example_bucket [] False)
     (normalizeKey example_env (example_bucket [] False) ''a/b.txt'') = ''a/b.txt''"
proof -
  have j1: "consistentJoin example_env ''pre'' ''a/b.txt'' = ''pre'' @ CHR ''/'' # ''a/b.txt''"
    by (simp add: example_env_def spec_join_def)
  have j2: "consistentJoin example_env [] ''a/b.txt'' = ''a/b.txt''"
    by (simp add: example_env_def spec_join_def)
  have p1: "Prefix (example_bucket ''pre'' False) = ''pre''"
    by (simp add: example_bucket_def)
  have p2: "Prefix (example_bucket [] False) = []"
    by (simp add: example_bucket_def)
  from codec_roundtrip [of example_env "example_bucket ''pre'' False" "''a/b.txt''" "CHR ''/''"]
       codec_roundtrip [of example_env "example_bucket [] False" "''a/b.txt''" "CHR ''/''"]
       j1 j2 p1 p2
  show ?thesis by simp
qed

text \<open>
  With a join that collapses nothing, the hypothesis on the join holds for every key:
  every non-empty key comes back as it was.
\<close>

lemma plain_join_roundtrip:
  "consistentJoin E = (\<lambda>p k. if p = [] then k else p @ sep # k) \<Longrightarrow> k \<noteq> [] \<Longrightarrow>
     denormalizeKey b (normalizeKey E b k) = k"
  by (simp add: normalizeKey_def denormalizeKey_def)

text \<open>
  C5, as stated: a path that does not begin with the prefix and a separator comes back
  unchanged. Under the prefix \<open>ab\<close> the path \<open>xyz1\<close> does not begin with \<open>ab/\<close>, and
  loses its first three characters.
\<close>

theorem denormalizeKey_counterexample:
  "\<not> prefix ''ab/'' ''xyz1'' \<and>
   denormalizeKey (example_bucket ''ab'' False) ''xyz1'' = ''1''"
  by (simp add: denormalizeKey_def example_bucket_def)

text \<open>
  C5, amended: \<open>denormalizeKey\<close> tests lengths only. It removes the first
  \<open>len(prefix) + 1\<close> characters of a path exactly when the prefix is not empty and the
  path is longer than that, whether or not the path begins with the prefix and a
  separator, and returns every other path unchanged. So a path made of the non-empty
  prefix, a separator and a non-empty rest comes back as the rest.
\<close>

theorem denormalizeKey_by_length:
  "(Prefix b \<noteq> [] \<and> length p > length (Prefix b) + 1 \<longrightarrow>
      denormalizeKey b p = drop (length (Prefix b) + 1) p) \<and>
   (Prefix b = [] \<or> length p \<le> length (Prefix b) + 1 \<longrightarrow> denormalizeKey b p = p) \<and>
   (Prefix b \<noteq> [] \<and> rest \<noteq> [] \<longrightarrow> denormalizeKey b (Prefix b @ sep # rest) = rest)"
  by (auto simp: denormalizeKey_def)

theorem denormalizeKey_by_length_witness:
  "denormalizeKey (example_bucket ''ab'' False) ''ab/c.txt'' = ''c.txt'' \<and>
   denormalizeKey (example_bucket ''ab'' False) ''zzzc.txt'' = ''c.txt'' \<and>
   denormalizeKey (example_bucket ''ab'' False) ''ab/'' = ''ab/'' \<and>
   denormalizeKey (example_bucket [] False) ''ab/c.txt'' = ''ab/c.txt''"
proof -
  have p1: "Prefix (example_bucket ''ab'' False) = ''ab''"
    by (simp add: example_bucket_def)
  have p2: "Prefix (example_bucket [] False) = []"
    by (simp add: example_bucket_def)
  from denormalizeKey_by_length [of "example_bucket ''ab'' False" "''ab/c.txt''" "''c.txt''" "CHR ''/''"]
       denormalizeKey_by_length [of "example_bucket ''ab'' False" "''zzzc.txt''" "''c.txt''" "CHR ''/''"]
       denormalizeKey_by_length [of "example_bucket ''ab'' False" "''ab/''" "''c.txt''" "CHR ''/''"]
       denormalizeKey_by_length [of "example_bucket [] False" "''ab/c.txt''" "''c.txt''" "CHR ''/''"]
       p1 p2
  show ?thesis by simp
qed

section \<open>Listing under a cancelled context\<close>

text \<open>
  C9. When the context is already cancelled at the call, \<open>List\<close> returns an error and
  no iterator, and the world is as before: no call was made, no query was sent.
\<close>

theorem List_canceled:
  "ctx \<noteq> None \<Longrightarrow>
     List E b ctx pfx w = (Inl (New ''operation canceled''), w) \<and>
     trace (snd (List E b ctx pfx w)) = trace w"
  by (simp add: List_def)

theorem List_canceled_witness:
  "List example_env (example_bucket ''pre'' False) (Some (New ''context canceled'')) ''abc''
     (example_world [example_file ''pre/abc1'' ''x''] Map.empty (\<lambda>c. None))
   = (Inl (New ''operation canceled''),
      example_world [example_file ''pre/abc1'' ''x''] Map.empty (\<lambda>c. None))"
  using List_canceled [of "Some (New ''context canceled'')" example_env
      "example_bucket ''pre'' False" "''abc''"
      "example_world [example_file ''pre/abc1'' ''x''] Map.empty (\<lambda>c. None)"]
  by simp

text \<open>Under a live context the query is sent: the statement above is not empty.\<close>

lemma List_live_sends_query:
  "trace (snd (List E b None pfx w)) = trace w @ [DbFind (List_query E b pfx)]"
  by (simp add: List_def gridfs_Find_def emit_def Let_def split: option.splits)

section \<open>Removal of many keys\<close>

text \<open>
  Whether the removal of a key fails is the database's answer to the request, and no
  operation changes how the database answers.
\<close>

lemma Remove_result:
  "fst (Remove E b k w) =
     (if DryRun b then None
      else wrap (fault w (DbRemove (normalizeKey E b k))) (''problem removing file '' @ k))"
  by (simp add: Remove_def gridfs_Remove_def Let_def split: option.splits)

lemma Remove_fault: "fault (snd (Remove E b k w)) = fault w"
  by (simp add: Remove_def gridfs_Remove_def emit_def Let_def split: option.splits)

lemma Remove_trace:
  "trace (snd (Remove E b k w)) =
     trace w @ (if DryRun b then [] else [DbRemove (normalizeKey E b k)])"
  by (simp add: Remove_def gridfs_Remove_def emit_def Let_def split: option.splits)

lemma Remove_same_answer:
  "fault w' = fault w \<Longrightarrow> fst (Remove E b k w') = fst (Remove E b k w)"
  by (simp add: Remove_result)

lemma failures_same_answer:
  assumes "fault w' = fault w"
  shows "failures E b w' keys = failures E b w keys"
proof -
  have "\<And>k. fst (Remove E b k w') = fst (Remove E b k w)"
    using assms by (rule Remove_same_answer)
  then show ?thesis by (simp add: failures_def)
qed

lemma failures_Cons:
  "failures E b w (k # ks) = catcher_Add [] (fst (Remove E b k w)) @ failures E b w ks"
  by (simp add: failures_def catcher_Add_def split: option.splits)

lemma catcher_Add_append: "catcher_Add c r = c @ catcher_Add [] r"
  by (simp add: catcher_Add_def split: option.splits)

lemma RemoveMany_loop_result:
  "fst (RemoveMany_loop E b keys c w) = c @ failures E b w keys \<and>
   fault (snd (RemoveMany_loop E b keys c w)) = fault w \<and>
   trace (snd (RemoveMany_loop E b keys c w)) =
     trace w @ (if DryRun b then [] else map (\<lambda>k. DbRemove (normalizeKey E b k)) keys)"
proof (induction keys arbitrary: c w)
  case Nil
  show ?case by (simp add: failures_def)
next
  case (Cons k ks)
  obtain r w' where step: "Remove E b k w = (r, w')"
    by (cases "Remove E b k w")
  have flt: "fault w' = fault w"
    using Remove_fault [of E b k w] step by simp
  have tr: "trace w' = trace w @ (if DryRun b then [] else [DbRemove (normalizeKey E b k)])"
    using Remove_trace [of E b k w] step by simp
  have same: "failures E b w' ks = failures E b w ks"
    using flt by (rule failures_same_answer)
  have r: "r = fst (Remove E b k w)"
    using step by simp
  have IH: "fst (RemoveMany_loop E b ks (catcher_Add c r) w') = catcher_Add c r @ failures E b w ks"
    "fault (snd (RemoveMany_loop E b ks (catcher_Add c r) w')) = fault w"
    "trace (snd (RemoveMany_loop E b ks (catcher_Add c r) w')) =
      trace w @ (if DryRun b then [] else [DbRemove (normalizeKey E b k)]) @
        (if DryRun b then [] else map (\<lambda>k. DbRemove (normalizeKey E b k)) ks)"
    using Cons.IH [of "catcher_Add c r" w'] flt tr same by simp_all
  have unfold: "RemoveMany_loop E b (k # ks) c w = RemoveMany_loop E b ks (catcher_Add c r) w'"
    using step by simp
  have app: "catcher_Add c r @ failures E b w ks = c @ failures E b w (k # ks)"
    unfolding failures_Cons r [symmetric] by (subst catcher_Add_append) simp
  show ?case
    unfolding unfold using IH app by simp
qed

lemma failures_empty:
  "(failures E b w keys = []) = (\<forall>k \<in> set keys. fst (Remove E b k w) = None)"
  by (induction keys) (auto simp: failures_def split: option.splits)

lemma failures_length:
  "length (failures E b w keys) = length (filter (\<lambda>k. fst (Remove E b k w) \<noteq> None) keys)"
  by (induction keys) (auto simp: failures_def split: option.splits)

text \<open>
  C7. \<open>RemoveMany\<close> sends the removal of every key, in order, whatever the earlier
  removals answered; it returns \<open>nil\<close> exactly when the removal of every key succeeds;
  and otherwise it returns the aggregate of the errors of the failed keys, one for each.
\<close>

theorem RemoveMany_attempts_all:
  "(\<not> DryRun b \<longrightarrow>
      trace (snd (RemoveMany E b keys w)) =
        trace w @ map (\<lambda>k. DbRemove (normalizeKey E b k)) keys) \<and>
   (fst (RemoveMany E b keys w) = None) = (\<forall>k \<in> set keys. fst (Remove E b k w) = None) \<and>
   (fst (RemoveMany E b keys w) \<noteq> None \<longrightarrow>
      fst (RemoveMany E b keys w) = Some (Multi (failures E b w keys)) \<and>
      length (failures E b w keys) =
        length (filter (\<lambda>k. fst (Remove E b k w) \<noteq> None) keys))"
proof -
  obtain c w' where loop: "RemoveMany_loop E b keys [] w = (c, w')"
    by (cases "RemoveMany_loop E b keys [] w")
  have c: "c = failures E b w keys"
    using RemoveMany_loop_result [of E b keys "[]" w] loop by simp
  have tr: "trace w' =
      trace w @ (if DryRun b then [] else map (\<lambda>k. DbRemove (normalizeKey E b k)) keys)"
    using RemoveMany_loop_result [of E b keys "[]" w] loop by simp
  have res: "RemoveMany E b keys w = (catcher_Resolve (failures E b w keys), w')"
    using loop c by (simp add: RemoveMany_def)
  show ?thesis
    using tr failures_empty [of E b w keys] failures_length [of E b w keys]
    by (simp add: res catcher_Resolve_def)
qed

theorem RemoveMany_attempts_all_witness:
  "fst (RemoveMany example_env (example_bucket ''pre'' False) [''a'', ''missing'', ''b'']
         (example_world [example_file ''pre/a'' ''x'', example_file ''pre/b'' ''y''] Map.empty
            (fault_on (DbRemove ''pre/missing'') (Fault ''boom''))))
     = Some (Multi [Wrap (Fault ''boom'') ''problem removing file missing'']) \<and>
   trace (snd (RemoveMany example_env (example_bucket ''pre'' False) [''a'', ''missing'', ''b'']
         (example_world [example_file ''pre/a'' ''x'', example_file ''pre/b'' ''y''] Map.empty
            (fault_on (DbRemove ''pre/missing'') (Fault ''boom'')))))
     = [DbRemove ''pre/a'', DbRemove ''pre/missing'', DbRemove ''pre/b'']"
  using RemoveMany_attempts_all [of "example_bucket ''pre'' False" example_env
      "[''a'', ''missing'', ''b'']"
      "example_world [example_file ''pre/a'' ''x'', example_file ''pre/b'' ''y''] Map.empty
            (fault_on (DbRemove ''pre/missing'') (Fault ''boom''))"]
  by (simp add: failures_def Remove_result normalizeKey_def spec_join_def fault_on_def)

section \<open>Dry run\<close>

lemma io_Copy_mock: "io_Copy MockWriteCloser src w = ((rd_err src, MockWriteCloser), w)"
  by (simp add: io_Copy_def stream_Write_def mock_Write_def)

lemma Close_mock: "stream_Close E MockWriteCloser w = (None, w)"
  by (simp add: stream_Close_def mock_Close_def)

lemma Put_dry:
  "DryRun b \<Longrightarrow> Put E b name input w = (wrap (rd_err input) ''problem copying data'', w)"
  by (cases "rd_err input") (simp_all add: Put_def io_Copy_mock Close_mock)

lemma Remove_dry: "DryRun b \<Longrightarrow> Remove E b k w = (None, w)"
  by (simp add: Remove_def)

lemma RemoveMany_loop_dry: "DryRun b \<Longrightarrow> RemoveMany_loop E b keys c w = (c, w)"
  by (induction keys arbitrary: c w) (simp_all add: Remove_dry catcher_Add_def)

lemma RemoveMany_dry: "DryRun b \<Longrightarrow> RemoveMany E b keys w = (None, w)"
  by (simp add: RemoveMany_def RemoveMany_loop_dry catcher_Resolve_def)

text \<open>
  C6, as stated: with dry-run enabled \<open>Put\<close> returns \<open>nil\<close> for every key and input.
  An input whose read fails makes \<open>io.Copy\<close> fail, and \<open>Put\<close> returns that error, in a
  dry run as well.
\<close>

theorem Put_dry_run_counterexample:
  "DryRun (example_bucket ''pre'' True) \<and>
   fst (Put example_env (example_bucket ''pre'' True) ''k''
          (Delivers ''ab'' (Some (Fault ''read failed'')))
          (example_world [] Map.empty no_fault))
     = Some (Wrap (Fault ''read failed'') ''problem copying data'')"
  by (simp add: Put_def io_Copy_mock)

text \<open>
  C6, amended: with dry-run enabled, \<open>Remove\<close> and \<open>RemoveMany\<close> return \<open>nil\<close> for every
  key, \<open>Put\<close> returns \<open>nil\<close> for every key and every input that is read without error
  (and the wrapped read error otherwise), and all three leave the world as it was:
  the stored objects are the same and no call was made. \<open>Writer\<close> returns the mock
  without a call, the mock takes every byte and keeps none, and closing it succeeds.
\<close>

theorem dry_run_no_op:
  "DryRun b \<Longrightarrow>
     Put E b name input w = (wrap (rd_err input) ''problem copying data'', w) \<and>
     (rd_err input = None \<longrightarrow> Put E b name input w = (None, w)) \<and>
     Remove E b k w = (None, w) \<and>
     RemoveMany E b keys w = (None, w) \<and>
     Writer E b name w = (Inr MockWriteCloser, w) \<and>
     io_Copy MockWriteCloser src w = ((rd_err src, MockWriteCloser), w) \<and>
     stream_Close E MockWriteCloser w = (None, w)"
  by (simp add: Put_dry Remove_dry RemoveMany_dry Writer_def io_Copy_mock Close_mock)

theorem dry_run_no_op_witness:
  "Put example_env (example_bucket ''pre'' True) ''k'' (Delivers ''ab'' None)
     (example_world [example_file ''pre/k'' ''x''] Map.empty no_fault)
     = (None, example_world [example_file ''pre/k'' ''x''] Map.empty no_fault) \<and>
   Remove example_env (example_bucket ''pre'' True) ''k''
     (example_world [example_file ''pre/k'' ''x''] Map.empty no_fault)
     = (None, example_world [example_file ''pre/k'' ''x''] Map.empty no_fault) \<and>
   RemoveMany example_env (example_bucket ''pre'' True) [''k'', ''j'']
     (example_world [example_file ''pre/k'' ''x''] Map.empty no_fault)
     = (None, example_world [example_file ''pre/k'' ''x''] Map.empty no_fault)"
  using dry_run_no_op [of "example_bucket ''pre'' True" example_env "''k''" "Delivers ''ab'' None"
      "example_world [example_file ''pre/k'' ''x''] Map.empty no_fault" "''k''" "[''k'', ''j'']"
      "Delivers ''ab'' None"]
  by simp

text \<open>
  Without dry-run the same calls reach the database: the statement above is about the
  dry run, not about \<open>Remove\<close> as such.
\<close>

lemma Remove_live_example:
  "Remove example_env (example_bucket ''pre'' False) ''k''
     (example_world [example_file ''pre/k'' ''x''] Map.empty no_fault)
   = (None, \<lparr>files = [], disk = Map.empty, trace = [DbRemove ''pre/k''], fault = no_fault\<rparr>)"
  by (simp add: Remove_def gridfs_Remove_def normalizeKey_def spec_join_def emit_def
      example_world_def no_fault_def)

section \<open>The iterator\<close>

lemma Next_keeps_err: "it_err (snd (Next b ictx ctx it)) = it_err it"
  by (simp add: Next_def split: option.splits prod.splits)

lemma List_err_None:
  "List E b ctx pfx w = (Inr it, w') \<Longrightarrow> Err it = None"
  by (auto simp: List_def Err_def split: if_splits prod.splits)

lemma Next_times_keeps_err: "Err (snd (Next_times b n it)) = Err it"
proof (induction n arbitrary: it)
  case 0
  show ?case by simp
next
  case (Suc n)
  obtain r it' where step: "Next b None None it = (r, it')"
    by (cases "Next b None None it")
  have "Err it' = Err it"
    using Next_keeps_err [of b None None it] step by (simp add: Err_def)
  then show ?case
    using Suc.IH [of it'] step by (simp add: split_beta)
qed

text \<open>
  Clean or not, a cursor with \<open>N\<close> files to deliver makes \<open>Next\<close> return true \<open>N\<close> times
  and false from then on.
\<close>

lemma Next_times_results:
  "length (pending (it_iter it)) = N \<Longrightarrow>
     fst (Next_times b (N + m) it) = replicate N True @ replicate m False"
proof (induction N arbitrary: it)
  case 0
  then have none: "Next b None None it = (False, it)"
    by (simp add: Next_def OpenNext_def)
  have "fst (Next_times b m it) = replicate m False"
    by (induction m) (simp_all add: none split_beta)
  then show ?case by simp
next
  case (Suc N)
  then obtain f fs where p: "pending (it_iter it) = f # fs" and l: "length fs = N"
    by (cases "pending (it_iter it)") auto
  define it' where "it' = it\<lparr>it_item := Some \<lparr>bi_bucket = Prefix b,
      bi_key = denormalizeKey b (gf_name f)\<rparr>, it_iter := Cursor fs (broken (it_iter it))\<rparr>"
  have step: "Next b None None it = (True, it')"
    by (simp add: Next_def OpenNext_def p it'_def)
  have "length (pending (it_iter it')) = N"
    by (simp add: it'_def l)
  then have "fst (Next_times b (N + m) it') = replicate N True @ replicate m False"
    by (rule Suc.IH)
  then show ?case
    by (simp add: step split_beta)
qed

text \<open>
  C4. The first half holds: after a clean exhaustion \<open>Err\<close> is \<open>nil\<close>
  (\<open>Next_times_results\<close>, \<open>Next_times_keeps_err\<close>). The second half fails: no
  operation assigns the \<open>err\<close> field, so \<open>Err\<close> is \<open>nil\<close> after every run of \<open>Next\<close>,
  also when the cursor stopped on a fault. Here the query of \<open>List\<close> fails in the
  database: \<open>Next\<close> returns false and the cursor holds the fault, which \<open>Pull\<close> reads
  from it directly, and \<open>Err\<close> is \<open>nil\<close>. The same for a cursor that delivers one file
  and then fails.
\<close>

theorem Err_misses_fault:
  "(case List example_env (example_bucket ''pre'' False) None ''abc''
           (example_world [example_file ''pre/abc1'' ''x''] Map.empty
              (fault_on (DbFind (Some ''^pre/abc.*'')) (Fault ''connection reset''))) of
      (Inl e, w) \<Rightarrow> False
    | (Inr it, w) \<Rightarrow>
        fst (Next (example_bucket ''pre'' False) None None it) = False \<and>
        broken (it_iter (snd (Next (example_bucket ''pre'' False) None None it)))
          = Some (Fault ''connection reset'') \<and>
        Err (snd (Next (example_bucket ''pre'' False) None None it)) = None) \<and>
   fst (Next_times (example_bucket ''pre'' False) 2
          \<lparr>it_err = None, it_item = None,
           it_iter = Cursor [example_file ''pre/abc1'' ''x''] (Some (Fault ''connection reset''))\<rparr>)
     = [True, False] \<and>
   Err (snd (Next_times (example_bucket ''pre'' False) 2
          \<lparr>it_err = None, it_item = None,
           it_iter = Cursor [example_file ''pre/abc1'' ''x''] (Some (Fault ''connection reset''))\<rparr>))
     = None"
  by (simp add: List_def List_query_def gridfs_Find_def normalizeKey_def spec_join_def
      fault_on_def Next_def OpenNext_def Err_def emit_def Let_def numeral_2_eq_2)

section \<open>What a listing selects\<close>

lemma parse_pieces_literal:
  "\<forall>c \<in> set body. \<not> special c \<Longrightarrow>
     parse_pieces (body @ ''.*'') = Some (map (\<lambda>c. One (Lit c)) body @ [Star Dot])"
proof (induction body)
  case Nil
  show ?case by (simp add: atom_of_def)
next
  case (Cons c cs)
  then have c: "atom_of c = Some (Lit c)" and star: "\<not> special (CHR ''*'') \<Longrightarrow> False"
    by (auto simp: atom_of_def special_def)
  from Cons have IH: "parse_pieces (cs @ ''.*'') = Some (map (\<lambda>c. One (Lit c)) cs @ [Star Dot])"
    by simp
  show ?case
  proof (cases cs)
    case Nil
    then show ?thesis using c IH by simp
  next
    case (Cons d ds)
    with Cons.prems have "d \<noteq> CHR ''*''"
      by (auto simp: special_def)
    then show ?thesis using c IH Cons by simp
  qed
qed

lemma match_pieces_any: "match_pieces [Star Dot] s = True"
  by (cases s) simp_all

lemma match_pieces_literal:
  "match_pieces (map (\<lambda>c. One (Lit c)) body @ [Star Dot]) s = prefix body s"
proof (induction body arbitrary: s)
  case Nil
  show ?case by (simp add: match_pieces_any)
next
  case (Cons c cs)
  show ?case by (cases s) (auto simp: Cons.IH atom_ok_def)
qed

text \<open>
  For a body without special characters the query of \<open>List\<close> is the literal prefix
  test.
\<close>

lemma pcre_search_literal:
  "\<forall>c \<in> set body. \<not> special c \<Longrightarrow> pcre_search (CHR ''^'' # body @ ''.*'') s = Some (prefix body s)"
  by (simp add: pcre_search_def parse_pieces_literal match_pieces_literal)

lemma List_selects:
  "fault w (DbFind (List_query E b pfx)) = None \<Longrightarrow>
     fst (List E b None pfx w) =
       Inr \<lparr>it_err = None, it_item = None,
            it_iter = Cursor (if pfx = [] then files w
                              else filter (\<lambda>f. regexMatch E (''^'' @ normalizeKey E b pfx @ ''.*'')
                                                  (gf_name f)) (files w)) None\<rparr>"
  by (simp add: List_def gridfs_Find_def List_query_def Let_def)

lemma List_literal_prefix:
  assumes "fault w (DbFind (List_query E b pfx)) = None"
    and "regexMatch E = (\<lambda>p s. pcre_search p s = Some True)"
    and "pfx \<noteq> []" and "\<forall>c \<in> set (normalizeKey E b pfx). \<not> special c"
  shows "fst (List E b None pfx w) =
       Inr \<lparr>it_err = None, it_item = None,
            it_iter = Cursor (filter (\<lambda>f. prefix (normalizeKey E b pfx) (gf_name f)) (files w)) None\<rparr>"
  using assms by (simp add: List_selects pcre_search_literal)

lemma List_abc123:
  "fst (List example_env (example_bucket [] False) None ''abc''
         (example_world [example_file ''abc123'' ''x'', example_file ''ab'' ''y''] Map.empty no_fault))
   = Inr \<lparr>it_err = None, it_item = None, it_iter = Cursor [example_file ''abc123'' ''x''] None\<rparr>"
  by (simp add: List_selects List_query_def normalizeKey_def spec_join_def no_fault_def
      pcre_search_def atom_of_def special_def atom_ok_def)

text \<open>
  C2. \<open>List\<close> puts the normalized prefix into a regular expression as it is, so a
  character of the prefix that is special in regular expressions is not compared
  literally. With the bucket prefix \<open>pre\<close>, the listing for \<open>a.c\<close> sends the pattern
  \<open>^pre/a.c.*\<close> and selects the stored name \<open>pre/abcd\<close>, which does not start with
  \<open>pre/a.c\<close>.
\<close>

theorem List_not_literal:
  "normalizeKey example_env (example_bucket ''pre'' False) ''a.c'' = ''pre/a.c'' \<and>
   \<not> prefix ''pre/a.c'' ''pre/abcd'' \<and>
   pcre_search ''^pre/a.c.*'' ''pre/abcd'' = Some True \<and>
   List example_env (example_bucket ''pre'' False) None ''a.c''
     (example_world [example_file ''pre/abcd'' ''x''] Map.empty no_fault)
   = (Inr \<lparr>it_err = None, it_item = None, it_iter = Cursor [example_file ''pre/abcd'' ''x''] None\<rparr>,
      \<lparr>files = [example_file ''pre/abcd'' ''x''], disk = Map.empty,
       trace = [DbFind (Some ''^pre/a.c.*'')], fault = no_fault\<rparr>)"
  by (simp add: List_def gridfs_Find_def List_query_def normalizeKey_def spec_join_def
      no_fault_def pcre_search_def atom_of_def special_def atom_ok_def emit_def Let_def
      example_world_def)

section \<open>The slice in Pull\<close>

lemma download_flow_not_Panic [simp]: "download_flow r \<noteq> Panic"
  by (cases r) (simp_all add: download_flow_def)

text \<open>
  The body of the loop panics exactly on a file that is not excluded and whose
  denormalized name is shorter than \<open>len(opts.Remote) + 1\<close>.
\<close>

lemma Pull_file_Panic_iff:
  "(fst (Pull_file E b opts re f keys w) = Panic) =
     (\<not> excluded re (gf_name f) \<and>
      length (denormalizeKey b (gf_name f)) < length (Remote opts) + 1)"
  by (auto simp: Pull_file_def slice_from_def Let_def split: sum.splits prod.splits)

lemma Pull_loop_no_Panic:
  "\<forall>f \<in> set (pending c). excluded re (gf_name f) \<or>
       length (Remote opts) + 1 \<le> length (denormalizeKey b (gf_name f)) \<Longrightarrow>
     fst (Pull_loop E b opts re c keys w) \<noteq> Panic"
proof (induction "pending c" arbitrary: c keys w)
  case Nil
  then show ?case by (simp add: Pull_loop_done)
next
  case (Cons f fs)
  from Cons.hyps(2) have p: "pending c = f # fs" by simp
  have ok: "fst (Pull_file E b opts re f keys w) \<noteq> Panic"
    using Cons.prems p by (auto simp: Pull_file_Panic_iff)
  obtain fl keys' w' where step: "Pull_file E b opts re f keys w = (fl, keys', w')"
    by (cases "Pull_file E b opts re f keys w")
  have rest: "fst (Pull_loop E b opts re (Cursor fs (broken c)) keys' w') \<noteq> Panic"
    using Cons.hyps(1) [of "Cursor fs (broken c)" keys' w'] Cons.prems p by simp
  show ?case
    using ok rest step by (cases fl) (simp_all add: Pull_loop_step [OF p])
qed

lemma Pull_no_Panic:
  assumes "\<forall>f \<in> set (files w). excluded (case compile_exclude E (Exclude opts) of Inl e \<Rightarrow> None | Inr re \<Rightarrow> re) (gf_name f) \<or>
       length (Remote opts) + 1 \<le> length (denormalizeKey b (gf_name f))"
  shows "fst (Pull E b ctx opts w) \<noteq> Panicked"
proof (cases "compile_exclude E (Exclude opts)")
  case (Inl e)
  then show ?thesis by (simp add: Pull_def)
next
  case (Inr re)
  show ?thesis
  proof (cases "List E b ctx (Remote opts) w")
    case (Pair r w1)
    show ?thesis
    proof (cases r)
      case (Inl err)
      then show ?thesis using Inr Pair by (simp add: Pull_def)
    next
      case (Inr it)
      have sub: "set (pending (it_iter it)) \<subseteq> set (files w)"
        using Pair Inr
        by (auto simp: List_def gridfs_Find_def Let_def split: if_splits option.splits)
      have "fst (Pull_loop E b opts re (it_iter it) [] w1) \<noteq> Panic"
        using assms sub \<open>compile_exclude E (Exclude opts) = Inr re\<close>
        by (intro Pull_loop_no_Panic) auto
      then show ?thesis
        using \<open>compile_exclude E (Exclude opts) = Inr re\<close> Pair Inr
        by (cases "Pull_loop E b opts re (it_iter it) [] w1")
           (auto simp: Pull_def split: flow.splits option.splits prod.splits)
    qed
  qed
qed

text \<open>
  C10. \<open>Pull\<close> takes \<open>denormalizedName[len(opts.Remote)+1:]\<close> without a test of the
  length, where \<open>denormalizeKey\<close> guards its own slice. A stored object named as the
  remote prefix itself is listed, its denormalized name is one character too short, and
  \<open>Pull\<close> panics: bucket prefix \<open>pre\<close>, remote prefix \<open>data\<close>, stored name
  \<open>pre/data\<close>.
\<close>

theorem Pull_panics:
  "denormalizeKey (example_bucket ''pre'' False) ''pre/data'' = ''data'' \<and>
   slice_from (length ''data'' + 1) ''data'' = None \<and>
   Pull example_env (example_bucket ''pre'' False) None
     \<lparr>Local = ''out'', Remote = ''data'', Exclude = []\<rparr>
     (example_world [example_file ''pre/data'' ''x''] Map.empty no_fault)
   = (Panicked,
      \<lparr>files = [example_file ''pre/data'' ''x''], disk = Map.empty,
       trace = [DbFind (Some ''^pre/data.*'')], fault = no_fault\<rparr>)"
  by (simp add: Pull_def compile_exclude_def List_def gridfs_Find_def List_query_def
      normalizeKey_def denormalizeKey_def spec_join_def no_fault_def pcre_search_def
      atom_of_def special_def atom_ok_def emit_def Let_def example_world_def
      Pull_loop_step [where fs = "[]"] Pull_file_def excluded_def slice_from_def)

section \<open>The calls of a transfer\<close>

lemma gridfs_Open_world: "snd (gridfs_Open n w) = emit (DbOpen n) w"
  by (simp add: gridfs_Open_def Let_def split: option.splits)

lemma gridfs_Create_world: "snd (gridfs_Create n w) = emit (DbCreate n) w"
  by (simp add: gridfs_Create_def Let_def split: option.splits)

lemma stream_Write_grows: "prefix (trace w) (trace (snd (stream_Write dst bs w)))"
  by (cases dst) (auto simp: stream_Write_def Let_def split: option.splits)

lemma io_Copy_grows: "prefix (trace w) (trace (snd (io_Copy dst src w)))"
proof (cases "rd_bytes src = []")
  case True
  then show ?thesis by (simp add: io_Copy_def)
next
  case False
  obtain r dst' w' where sw: "stream_Write dst (rd_bytes src) w = ((r, dst'), w')"
    by (metis prod.exhaust)
  have "prefix (trace w) (trace w')"
    using stream_Write_grows [of w dst "rd_bytes src"] sw by simp
  then show ?thesis
    using False sw by (cases r) (simp_all add: io_Copy_def)
qed

lemma stream_Close_grows: "prefix (trace w) (trace (snd (stream_Close E s w)))"
  by (cases s) (auto simp: stream_Close_def Let_def split: option.splits)

lemma openFile_world:
  "snd (openFile E b name create w) =
     emit (if create then DbCreate (normalizeKey E b name) else DbOpen (normalizeKey E b name)) w"
proof (cases create)
  case True
  obtain r w' where c: "gridfs_Create (normalizeKey E b name) w = (r, w')"
    by (metis prod.exhaust)
  then have "w' = emit (DbCreate (normalizeKey E b name)) w"
    using gridfs_Create_world [of "normalizeKey E b name" w] by simp
  then show ?thesis
    using True c by (cases r) (simp_all add: openFile_def Let_def)
next
  case False
  obtain r w' where c: "gridfs_Open (normalizeKey E b name) w = (r, w')"
    by (metis prod.exhaust)
  then have "w' = emit (DbOpen (normalizeKey E b name)) w"
    using gridfs_Open_world [of "normalizeKey E b name" w] by simp
  then show ?thesis
    using False c by (cases r) (simp_all add: openFile_def Let_def)
qed

lemma Put_grows: "prefix (trace w) (trace (snd (Put E b name input w)))"
proof -
  define opened where "opened = (if DryRun b then (Inr MockWriteCloser, w) else openFile E b name True w)"
  obtain r w1 where o: "opened = (r, w1)"
    by (metis prod.exhaust)
  have g1: "prefix (trace w) (trace w1)"
    using o openFile_world [of E b name True w] by (auto simp: opened_def split: if_splits)
  show ?thesis
  proof (cases r)
    case (Inl err)
    then show ?thesis using o g1 by (simp add: Put_def opened_def [symmetric])
  next
    case (Inr fl)
    obtain e file' w2 where c: "io_Copy fl input w1 = ((e, file'), w2)"
      by (metis prod.exhaust)
    have g2: "prefix (trace w1) (trace w2)"
      using io_Copy_grows [of w1 fl input] c by simp
    show ?thesis
    proof (cases e)
      case (Some err)
      then show ?thesis
        using o Inr c g1 g2 by (simp add: Put_def opened_def [symmetric])
    next
      case None
      obtain r3 w3 where cl: "stream_Close E file' w2 = (r3, w3)"
        by (metis prod.exhaust)
      have g3: "prefix (trace w2) (trace w3)"
        using stream_Close_grows [of w2 E file'] cl by simp
      have "prefix (trace w) (trace w3)"
        using g1 g2 g3 by (meson prefix_order.trans)
      then show ?thesis
        using o Inr c None cl by (simp add: Put_def opened_def [symmetric])
    qed
  qed
qed

text \<open>Every \<open>Upload\<close> starts by opening the local file.\<close>

lemma Upload_first_call:
  "prefix (trace w @ [OsOpen path]) (trace (snd (Upload E b name path w)))"
proof -
  obtain r w1 where o: "os_Open path w = (r, w1)"
    by (metis prod.exhaust)
  have w1: "trace w1 = trace w @ [OsOpen path]"
    using o by (auto simp: os_Open_def Let_def split: option.splits)
  show ?thesis
  proof (cases r)
    case (Inl err)
    then show ?thesis using o w1 by (simp add: Upload_def)
  next
    case (Inr f)
    obtain r2 w2 where p: "Put E b name f w1 = (r2, w2)"
      by (metis prod.exhaust)
    have "prefix (trace w1) (trace w2)"
      using Put_grows [of w1 E b name f] p by simp
    then have "prefix (trace w @ [OsOpen path]) (trace w2 @ [OsClose path])"
      using w1 by (auto simp: prefix_def)
    then show ?thesis using o Inr p by (simp add: Upload_def)
  qed
qed

text \<open>Every \<open>Download\<close> starts by opening the stored object.\<close>

lemma Download_first_call:
  "prefix (trace w @ [DbOpen (normalizeKey E b name)]) (trace (snd (Download E b name path w)))"
proof -
  obtain r w1 where o: "Reader E b name w = (r, w1)"
    by (metis prod.exhaust)
  have w1: "trace w1 = trace w @ [DbOpen (normalizeKey E b name)]"
    using o openFile_world [of E b name False w] by (simp add: Reader_def)
  show ?thesis
  proof (cases r)
    case (Inl err)
    then show ?thesis using o w1 by (simp add: Download_def)
  next
    case (Inr reader)
    obtain r2 w2 where m: "os_MkdirAll (filepathDir E path) w1 = (r2, w2)"
      by (metis prod.exhaust)
    have g2: "prefix (trace w1) (trace w2)"
      using m by (auto simp: os_MkdirAll_def)
    show ?thesis
    proof (cases r2)
      case (Some err)
      then show ?thesis using o Inr m g2 w1 by (simp add: Download_def)
    next
      case None
      obtain r3 w3 where c: "os_Create path w2 = (r3, w3)"
        by (metis prod.exhaust)
      have g3: "prefix (trace w2) (trace w3)"
        using c by (auto simp: os_Create_def Let_def split: option.splits)
      show ?thesis
      proof (cases r3)
        case (Inl err)
        have "prefix (trace w1) (trace w3)"
          using g2 g3 by (meson prefix_order.trans)
        then show ?thesis using o Inr m None c Inl w1 by (simp add: Download_def)
      next
        case (Inr f)
        obtain e f' w4 where cp: "io_Copy f (stream_reader reader w3) w3 = ((e, f'), w4)"
          by (metis prod.exhaust)
        have g4: "prefix (trace w3) (trace w4)"
          using io_Copy_grows [of w3 f "stream_reader reader w3"] cp by simp
        have g5: "prefix (trace w4) (trace (snd (stream_Close E f' w4)))"
          by (rule stream_Close_grows)
        have all: "prefix (trace w1) (trace (snd (stream_Close E f' w4)))"
          using g2 g3 g4 g5 by (meson prefix_order.trans)
        show ?thesis
          using o \<open>r = Inr reader\<close> m None c Inr cp all w1
          by (cases e) (simp_all add: Download_def split_beta)
      qed
    qed
  qed
qed

section \<open>Push: the decision for one file\<close>

lemma Push_file_excluded: "excluded re path \<Longrightarrow> Push_file E b opts re path w = (None, w)"
  by (simp add: Push_file_def)

text \<open>
  With no fault of the driver, \<open>gridfs.Open\<close> answers \<open>ErrNotFound\<close> exactly when no
  stored object has the name.
\<close>

lemma gridfs_Open_absent:
  "fault w (DbOpen n) = None \<Longrightarrow>
     (fst (gridfs_Open n w) = Inl ErrNotFound) = (n \<notin> gf_name ` set (files w))"
proof -
  have "(List.find (\<lambda>f. gf_name f = n) (rev (files w)) = None) = (n \<notin> gf_name ` set (files w))"
    by (auto simp: find_None_iff)
  moreover assume "fault w (DbOpen n) = None"
  ultimately show ?thesis
    by (cases "List.find (\<lambda>f. gf_name f = n) (rev (files w))")
       (simp_all add: gridfs_Open_def Let_def)
qed

text \<open>
  The round of the loop of \<open>Push\<close> for one local path that the exclude pattern does not
  match, by the answer of the database and the local checksum.
\<close>

lemma Push_file_cases:
  assumes "\<not> excluded re path"
    and "target = consistentJoin E (Remote opts) path"
    and "nk = normalizeKey E b target"
    and "lp = filepathJoin E (Local opts) path"
    and "w1 = emit (DbOpen nk) w"
    and "U = Upload E b target lp w1"
  shows
    "(fst (gridfs_Open nk w) = Inl ErrNotFound \<longrightarrow>
        Push_file E b opts re path w = (wrap (fst U) (upload_msg path target), snd U) \<and>
        prefix (trace w @ [DbOpen nk, OsOpen lp]) (trace (snd (Push_file E b opts re path w)))) \<and>
     (\<forall>fl m. fst (gridfs_Open nk w) = Inr fl \<and> md5sum E w1 lp = Inr m \<longrightarrow>
        (gf_md5 fl \<noteq> m \<longrightarrow>
           Push_file E b opts re path w = (wrap (fst U) (upload_msg path target), snd U) \<and>
           prefix (trace w @ [DbOpen nk, OsOpen lp]) (trace (snd (Push_file E b opts re path w)))) \<and>
        (gf_md5 fl = [] \<and> m \<noteq> [] \<longrightarrow>
           Push_file E b opts re path w = (wrap (fst U) (upload_msg path target), snd U)) \<and>
        (gf_md5 fl = m \<longrightarrow>
           Push_file E b opts re path w = (None, w1) \<and>
           trace (snd (Push_file E b opts re path w)) = trace w @ [DbOpen nk]))"
proof -
  obtain found w' where o: "gridfs_Open nk w = (found, w')"
    by (metis prod.exhaust)
  have w': "w' = w1"
    using o gridfs_Open_world [of nk w] assms(5) by simp
  have first: "prefix (trace w @ [DbOpen nk, OsOpen lp]) (trace (snd U))"
    using Upload_first_call [of w1 lp E b target] assms(5,6) by simp
  have absent: "found = Inl ErrNotFound \<Longrightarrow>
      Push_file E b opts re path w = (wrap (fst U) (upload_msg path target), snd U)"
    using assms o w' by (simp add: Push_file_def Let_def split_beta)
  have differ: "\<And>fl m. found = Inr fl \<Longrightarrow> md5sum E w1 lp = Inr m \<Longrightarrow> gf_md5 fl \<noteq> m \<Longrightarrow>
      Push_file E b opts re path w = (wrap (fst U) (upload_msg path target), snd U)"
    using assms o w' by (simp add: Push_file_def Let_def split_beta)
  have same: "\<And>fl m. found = Inr fl \<Longrightarrow> md5sum E w1 lp = Inr m \<Longrightarrow> gf_md5 fl = m \<Longrightarrow>
      Push_file E b opts re path w = (None, w1)"
    using assms o w' by (simp add: Push_file_def Let_def split_beta)
  have tr1: "trace w1 = trace w @ [DbOpen nk]"
    using assms(5) by simp
  show ?thesis
    using absent differ same first tr1 o by auto
qed

section \<open>Pull: a file that is missing locally\<close>

lemma Pull_returns_loop_error:
  "compile_exclude E (Exclude opts) = Inr re \<Longrightarrow>
   List E b ctx (Remote opts) w = (Inr it, w1) \<Longrightarrow>
   Pull_loop E b opts re (it_iter it) [] w1 = (Return e, keys, c, w2) \<Longrightarrow>
     Pull E b ctx opts w = (Returned (Some e), w2)"
  by (simp add: Pull_def)

text \<open>The checksum helper of the instance reports a missing local file as such.\<close>

lemma spec_md5sum_missing:
  "disk w p = None \<Longrightarrow>
     (\<exists>err. spec_md5sum h w p = Inl err \<and> isNotExist (cause err))"
  by (simp add: spec_md5sum_def)

text \<open>
  The round of the loop of \<open>Pull\<close> for one listed file that the exclude pattern does not
  match and whose local path could be computed, by the answer of \<open>md5sum\<close>.
\<close>

lemma Pull_file_cases:
  assumes "\<not> excluded re (gf_name f)"
    and "dn = denormalizeKey b (gf_name f)"
    and "slice_from (length (Remote opts) + 1) dn = Some fn"
    and "name = filepathJoin E (Local opts) fn"
    and "D = Download E b dn name w"
  shows
    "(\<forall>err. md5sum E w name = Inl err \<and> isNotExist (cause err) \<longrightarrow>
        Pull_file E b opts re f keys w = (download_flow (fst D), keys @ [fn], snd D) \<and>
        prefix (trace w @ [DbOpen (normalizeKey E b dn)])
               (trace (snd (snd (Pull_file E b opts re f keys w)))) \<and>
        (fst D = None \<longrightarrow> fst (Pull_file E b opts re f keys w) = Continue)) \<and>
     (\<forall>err. md5sum E w name = Inl err \<and> \<not> isNotExist (cause err) \<longrightarrow>
        Pull_file E b opts re f keys w = (Return (WithStack err), keys @ [fn], w) \<and>
        (\<forall>c fs. pending c = f # fs \<longrightarrow>
           Pull_loop E b opts re c keys w =
             (Return (WithStack err), keys @ [fn], Cursor fs (broken c), w)))"
proof -
  have first: "prefix (trace w @ [DbOpen (normalizeKey E b dn)]) (trace (snd D))"
    using Download_first_call [of w E b dn name] assms(5) by simp
  have missing: "\<And>err. md5sum E w name = Inl err \<Longrightarrow> isNotExist (cause err) \<Longrightarrow>
      Pull_file E b opts re f keys w = (download_flow (fst D), keys @ [fn], snd D)"
    using assms by (simp add: Pull_file_def Let_def split_beta)
  have other: "\<And>err. md5sum E w name = Inl err \<Longrightarrow> \<not> isNotExist (cause err) \<Longrightarrow>
      Pull_file E b opts re f keys w = (Return (WithStack err), keys @ [fn], w)"
    using assms by (simp add: Pull_file_def Let_def split_beta)
  have loop: "\<And>err c fs. md5sum E w name = Inl err \<Longrightarrow> \<not> isNotExist (cause err) \<Longrightarrow>
      pending c = f # fs \<Longrightarrow>
      Pull_loop E b opts re c keys w = (Return (WithStack err), keys @ [fn], Cursor fs (broken c), w)"
    using other by (simp add: Pull_loop_step)
  show ?thesis
    using missing other loop first by (auto simp: download_flow_def)
qed

text \<open>
  The whole of \<open>Pull\<close> on a small world: the remote \<open>r/f.txt\<close> is downloaded to the
  local \<open>out/f.txt\<close> and \<open>Pull\<close> returns \<open>nil\<close>.
\<close>

lemma Pull_example:
  "Pull example_env (example_bucket ''pre'' False) None
     \<lparr>Local = ''out'', Remote = ''r'', Exclude = []\<rparr>
     (example_world [example_file ''pre/r/f.txt'' ''Y''] Map.empty no_fault)
   = (Returned None,
      \<lparr>files = [example_file ''pre/r/f.txt'' ''Y''], disk = [''out/f.txt'' \<mapsto> ''Y''],
       trace = [DbFind (Some ''^pre/r.*''), DbOpen ''pre/r/f.txt'', OsMkdirAll ''out'',
                OsCreate ''out/f.txt'', OsWrite ''out/f.txt'', OsClose ''out/f.txt''],
       fault = no_fault\<rparr>)"
  by (simp add: Pull_def compile_exclude_def List_def gridfs_Find_def List_query_def
      normalizeKey_def denormalizeKey_def spec_join_def no_fault_def pcre_search_def
      atom_of_def special_def atom_ok_def emit_def Let_def example_world_def
      Pull_loop_step [where fs = "[]"] Pull_loop_done Pull_file_def excluded_def slice_from_def
      spec_md5sum_def Download_def Reader_def openFile_def gridfs_Open_def os_MkdirAll_def
      os_Create_def io_Copy_def stream_reader_def stream_Write_def stream_Close_def
      download_flow_def example_file_def isNotExist_def)

section \<open>Push: every local file\<close>

lemma Push_loop_append:
  "Push_loop E b opts re (xs @ ys) w =
     (case Push_loop E b opts re xs w of
        (Some e, w') \<Rightarrow> (Some e, w')
      | (None, w') \<Rightarrow> Push_loop E b opts re ys w')"
proof (induction xs arbitrary: w)
  case Nil
  show ?case by simp
next
  case (Cons x xs)
  obtain r w' where step: "Push_file E b opts re x w = (r, w')"
    by (metis prod.exhaust)
  show ?case
    using Cons.IH [of w'] step by (cases r) simp_all
qed

lemma Push_loop_reaches:
  "Push_loop E b opts re pre w = (None, wi) \<Longrightarrow>
     Push_loop E b opts re (pre @ [path]) w = Push_file E b opts re path wi"
proof -
  assume before: "Push_loop E b opts re pre w = (None, wi)"
  obtain r w' where step: "Push_file E b opts re path wi = (r, w')"
    by (metis prod.exhaust)
  show ?thesis
    using before step by (cases r) (simp_all add: Push_loop_append)
qed

text \<open>
  \<open>Push\<close>, once the pattern is compiled and the local tree is listed, for a path that
  the loop reaches.
\<close>

lemma Push_reaches:
  assumes "compile_exclude E (Exclude opts) = Inr re"
    and "walkLocalTree E w (Local opts) = Inr (pre @ path # post)"
    and "Push_loop E b opts re pre w = (None, wi)"
  shows "Push E b opts w =
      Push_finish E b opts re (pre @ path # post) post (Push_file E b opts re path wi)"
proof -
  obtain r w' where step: "Push_file E b opts re path wi = (r, w')"
    by (metis prod.exhaust)
  have loop: "Push_loop E b opts re (pre @ path # post) w =
      (case r of Some e \<Rightarrow> (Some e, w') | None \<Rightarrow> Push_loop E b opts re post w')"
    using assms(3) step by (cases r) (simp_all add: Push_loop_append)
  show ?thesis
  proof (cases r)
    case (Some e)
    then show ?thesis
      using assms(1,2) loop step by (simp add: Push_def Push_finish_def)
  next
    case None
    obtain r2 w2 where rest: "Push_loop E b opts re post w' = (r2, w2)"
      by (metis prod.exhaust)
    show ?thesis
      using assms(1,2) loop step None rest
      by (cases r2) (simp_all add: Push_def Push_finish_def)
  qed
qed

text \<open>
  A successful \<open>Put\<close> outside a dry run has read its input to the end and stored its
  bytes under the normalized key.
\<close>

lemma Put_success:
  assumes "fst (Put E b name (Delivers d r) w) = None" and "\<not> DryRun b"
  shows "r = None \<and>
     files (snd (Put E b name (Delivers d r) w)) =
       files w @ [\<lparr>gf_name = normalizeKey E b name, gf_md5 = digest E d, gf_data = d\<rparr>]"
  using assms
  by (auto simp: Put_def openFile_def gridfs_Create_def io_Copy_def stream_Write_def
      stream_Close_def Let_def
      split: option.splits if_splits sum.splits prod.splits)

lemma Upload_success:
  assumes "fst (Upload E b name path w) = None" and "\<not> DryRun b"
  shows "\<exists>d. disk w path = Some d \<and>
           files (snd (Upload E b name path w)) =
             files w @ [\<lparr>gf_name = normalizeKey E b name, gf_md5 = digest E d, gf_data = d\<rparr>]"
proof -
  obtain r w1 where o: "os_Open path w = (r, w1)"
    by (metis prod.exhaust)
  have w1: "w1 = emit (OsOpen path) w"
    using o by (auto simp: os_Open_def Let_def split: option.splits)
  show ?thesis
  proof (cases r)
    case (Inl err)
    then show ?thesis using assms(1) o by (simp add: Upload_def)
  next
    case (Inr f)
    obtain d where d: "disk w path = Some d"
      using o Inr by (auto simp: os_Open_def Let_def split: option.splits)
    obtain bs e where f: "f = Delivers bs e" and bs: "e = None \<Longrightarrow> bs = d"
      using o Inr d by (auto simp: os_Open_def Let_def split: option.splits)
    have ok: "fst (Put E b name (Delivers bs e) w1) = None"
      using assms(1) o Inr f by (simp add: Upload_def split_beta withStack_def)
    have "e = None \<and> files (snd (Put E b name (Delivers bs e) w1)) =
        files w1 @ [\<lparr>gf_name = normalizeKey E b name, gf_md5 = digest E bs, gf_data = bs\<rparr>]"
      by (rule Put_success [OF ok assms(2)])
    then have "files (snd (Put E b name f w1)) =
        files w1 @ [\<lparr>gf_name = normalizeKey E b name, gf_md5 = digest E d, gf_data = d\<rparr>]"
      using bs f by auto
    then show ?thesis
      using o Inr f d w1 by (simp add: Upload_def split_beta)
  qed
qed

lemma Push_uploads_I:
  assumes comp: "compile_exclude E (Exclude opts) = Inr re"
    and walk: "walkLocalTree E w (Local opts) = Inr (pre @ path # post)"
    and before: "Push_loop E b opts re pre w = (None, wi)"
    and step: "Push_file E b opts re path wi =
      (wrap (fst (Upload E b (consistentJoin E (Remote opts) path)
                     (filepathJoin E (Local opts) path)
                     (emit (DbOpen (normalizeKey E b (consistentJoin E (Remote opts) path))) wi)))
            (upload_msg path (consistentJoin E (Remote opts) path)),
       snd (Upload E b (consistentJoin E (Remote opts) path)
                     (filepathJoin E (Local opts) path)
                     (emit (DbOpen (normalizeKey E b (consistentJoin E (Remote opts) path))) wi)))"
  shows "Push_uploads E b opts re w pre path post wi"
proof -
  let ?target = "consistentJoin E (Remote opts) path"
  let ?nk = "normalizeKey E b ?target"
  let ?lp = "filepathJoin E (Local opts) path"
  let ?U = "Upload E b ?target ?lp (emit (DbOpen ?nk) wi)"
  have a: "Push_loop E b opts re (pre @ [path]) w = (wrap (fst ?U) (upload_msg path ?target), snd ?U)"
    using Push_loop_reaches [OF before, of path] step by simp
  have c: "Push E b opts w =
      Push_finish E b opts re (pre @ path # post) post (wrap (fst ?U) (upload_msg path ?target), snd ?U)"
    using Push_reaches [OF comp walk before] step by simp
  have d: "prefix (trace wi @ [DbOpen ?nk, OsOpen ?lp]) (trace (snd ?U))"
    using Upload_first_call [of "emit (DbOpen ?nk) wi" ?lp E b ?target] by simp
  have e: "fst ?U = None \<and> \<not> DryRun b \<longrightarrow>
      (case disk wi ?lp of
         None \<Rightarrow> False
       | Some d \<Rightarrow> files (snd ?U) = files wi @ [\<lparr>gf_name = ?nk, gf_md5 = digest E d, gf_data = d\<rparr>])"
  proof (intro impI, elim conjE)
    assume ok: "fst ?U = None" and live: "\<not> DryRun b"
    from Upload_success [OF ok live] obtain d where
      "disk wi ?lp = Some d"
      "files (snd ?U) = files wi @ [\<lparr>gf_name = ?nk, gf_md5 = digest E d, gf_data = d\<rparr>]"
      by auto
    then show "case disk wi ?lp of
         None \<Rightarrow> False
       | Some d \<Rightarrow> files (snd ?U) = files wi @ [\<lparr>gf_name = ?nk, gf_md5 = digest E d, gf_data = d\<rparr>]"
      by simp
  qed
  show ?thesis
    unfolding Push_uploads_def Let_def
    using a c d e by simp
qed

lemma Push_skips_I:
  assumes comp: "compile_exclude E (Exclude opts) = Inr re"
    and walk: "walkLocalTree E w (Local opts) = Inr (pre @ path # post)"
    and before: "Push_loop E b opts re pre w = (None, wi)"
    and step: "Push_file E b opts re path wi =
      (None, emit (DbOpen (normalizeKey E b (consistentJoin E (Remote opts) path))) wi)"
  shows "Push_skips E b opts re w pre path post wi"
  unfolding Push_skips_def Let_def
  using Push_loop_reaches [OF before, of path] Push_reaches [OF comp walk before] step
  by simp

text \<open>
  C3, as stated: \<open>Push\<close> uploads every local file that the exclude pattern does not
  match and that has no remote object. \<open>Push\<close> returns at the first error, so a file
  after a failed one is not looked at. Here the local tree is \<open>a.txt\<close>, \<open>b.txt\<close>, the
  remote is empty, and the database refuses to create the object for \<open>a.txt\<close>:
  \<open>Push\<close> returns that error, and \<open>b.txt\<close>, which has no remote object either, is
  neither asked for nor opened.
\<close>

theorem Push_counterexample:
  "\<not> excluded None ''b.txt'' \<and>
   fst (gridfs_Open ''pre/r/b.txt''
          (example_world [] [''loc/a.txt'' \<mapsto> ''X'', ''loc/b.txt'' \<mapsto> ''Y'']
             (fault_on (DbCreate ''pre/r/a.txt'') (Fault ''connection reset''))))
     = Inl ErrNotFound \<and>
   fst (Push (example_env_tree [''a.txt'', ''b.txt'']) (example_bucket ''pre'' False)
          \<lparr>Local = ''loc'', Remote = ''r'', Exclude = []\<rparr>
          (example_world [] [''loc/a.txt'' \<mapsto> ''X'', ''loc/b.txt'' \<mapsto> ''Y'']
             (fault_on (DbCreate ''pre/r/a.txt'') (Fault ''connection reset''))))
     \<noteq> None \<and>
   snd (Push (example_env_tree [''a.txt'', ''b.txt'']) (example_bucket ''pre'' False)
          \<lparr>Local = ''loc'', Remote = ''r'', Exclude = []\<rparr>
          (example_world [] [''loc/a.txt'' \<mapsto> ''X'', ''loc/b.txt'' \<mapsto> ''Y'']
             (fault_on (DbCreate ''pre/r/a.txt'') (Fault ''connection reset''))))
     = \<lparr>files = [], disk = [''loc/a.txt'' \<mapsto> ''X'', ''loc/b.txt'' \<mapsto> ''Y''],
        trace = [DbOpen ''pre/r/a.txt'', OsOpen ''loc/a.txt'', DbCreate ''pre/r/a.txt'',
                 OsClose ''loc/a.txt''],
        fault = fault_on (DbCreate ''pre/r/a.txt'') (Fault ''connection reset'')\<rparr>"
  by (simp add: Push_def compile_exclude_def Push_file_def excluded_def gridfs_Open_def
      Upload_def os_Open_def Put_def openFile_def gridfs_Create_def normalizeKey_def
      spec_join_def fault_on_def emit_def Let_def example_world_def)

text \<open>
  C3, amended: for every local file that the exclude pattern does not match and that
  \<open>Push\<close> reaches, every file before it in the local tree having been handled without
  error: if no remote object exists at the normalized target, \<open>Push\<close> uploads it
  unconditionally; if one exists and the local checksum is \<open>m\<close>, \<open>Push\<close> uploads exactly
  when the checksum the backend reports differs from \<open>m\<close> (an empty one differs from
  every \<open>m\<close> that is not empty), and skips the file when they are equal. What uploading
  and skipping are is said by \<open>Push_uploads\<close> and \<open>Push_skips\<close>.
\<close>

theorem Push_decision:
  assumes "compile_exclude E (Exclude opts) = Inr re"
    and "walkLocalTree E w (Local opts) = Inr (pre @ path # post)"
    and "Push_loop E b opts re pre w = (None, wi)"
    and "\<not> excluded re path"
    and "nk = normalizeKey E b (consistentJoin E (Remote opts) path)"
    and "found = fst (gridfs_Open nk wi)"
    and "chk = md5sum E (emit (DbOpen nk) wi) (filepathJoin E (Local opts) path)"
  shows
    "(found = Inl ErrNotFound \<longrightarrow> Push_uploads E b opts re w pre path post wi) \<and>
     (\<forall>fl m. found = Inr fl \<and> chk = Inr m \<longrightarrow>
        (gf_md5 fl \<noteq> m \<longrightarrow> Push_uploads E b opts re w pre path post wi) \<and>
        (gf_md5 fl = [] \<and> m \<noteq> [] \<longrightarrow> Push_uploads E b opts re w pre path post wi) \<and>
        (gf_md5 fl = m \<longrightarrow>
           Push_skips E b opts re w pre path post wi \<and>
           \<not> Push_uploads E b opts re w pre path post wi))"
proof -
  let ?target = "consistentJoin E (Remote opts) path"
  let ?nk = "normalizeKey E b ?target"
  let ?lp = "filepathJoin E (Local opts) path"
  let ?w1 = "emit (DbOpen ?nk) wi"
  let ?U = "Upload E b ?target ?lp ?w1"
  obtain r w' where o: "gridfs_Open ?nk wi = (r, w')"
    by (metis prod.exhaust)
  have w': "w' = ?w1"
    using o gridfs_Open_world [of ?nk wi] by simp
  have r: "found = r"
    using o assms(5,6) by simp
  have c: "chk = md5sum E ?w1 ?lp"
    using assms(5,7) by simp
  have absent: "r = Inl ErrNotFound \<Longrightarrow>
      Push_file E b opts re path wi = (wrap (fst ?U) (upload_msg path ?target), snd ?U)"
    using assms(4) o w' by (simp add: Push_file_def Let_def split_beta)
  have differ: "\<And>fl m. r = Inr fl \<Longrightarrow> md5sum E ?w1 ?lp = Inr m \<Longrightarrow> gf_md5 fl \<noteq> m \<Longrightarrow>
      Push_file E b opts re path wi = (wrap (fst ?U) (upload_msg path ?target), snd ?U)"
    using assms(4) o w' by (simp add: Push_file_def Let_def split_beta)
  have equal: "\<And>fl m. r = Inr fl \<Longrightarrow> md5sum E ?w1 ?lp = Inr m \<Longrightarrow> gf_md5 fl = m \<Longrightarrow>
      Push_file E b opts re path wi = (None, ?w1)"
    using assms(4) o w' by (simp add: Push_file_def Let_def split_beta)
  have up: "found = Inl ErrNotFound \<Longrightarrow> Push_uploads E b opts re w pre path post wi"
    using absent r by (intro Push_uploads_I [OF assms(1,2,3)]) simp
  have up2: "\<And>fl m. found = Inr fl \<Longrightarrow> chk = Inr m \<Longrightarrow> gf_md5 fl \<noteq> m \<Longrightarrow>
      Push_uploads E b opts re w pre path post wi"
  proof -
    fix fl m
    assume "found = Inr fl" "chk = Inr m" "gf_md5 fl \<noteq> m"
    then have "Push_file E b opts re path wi = (wrap (fst ?U) (upload_msg path ?target), snd ?U)"
      using differ [of fl m] r c by simp
    then show "Push_uploads E b opts re w pre path post wi"
      by (rule Push_uploads_I [OF assms(1,2,3)])
  qed
  have same: "\<And>fl m. found = Inr fl \<Longrightarrow> chk = Inr m \<Longrightarrow> gf_md5 fl = m \<Longrightarrow>
      Push_skips E b opts re w pre path post wi"
  proof -
    fix fl m
    assume "found = Inr fl" "chk = Inr m" "gf_md5 fl = m"
    then have "Push_file E b opts re path wi = (None, ?w1)"
      using equal [of fl m] r c by simp
    then show "Push_skips E b opts re w pre path post wi"
      by (rule Push_skips_I [OF assms(1,2,3)])
  qed
  have not_up: "Push_skips E b opts re w pre path post wi \<Longrightarrow>
      \<not> Push_uploads E b opts re w pre path post wi"
  proof
    assume sk: "Push_skips E b opts re w pre path post wi"
      and u: "Push_uploads E b opts re w pre path post wi"
    have a: "Push_loop E b opts re (pre @ [path]) w = (None, ?w1)"
      using sk unfolding Push_skips_def Let_def by (rule conjunct1)
    have c: "Push_loop E b opts re (pre @ [path]) w =
        (wrap (fst ?U) (upload_msg path ?target), snd ?U)"
      using u unfolding Push_uploads_def Let_def by (rule conjunct1)
    have "(wrap (fst ?U) (upload_msg path ?target), snd ?U) = (None, ?w1)"
      by (rule trans [OF c [symmetric] a])
    then have "snd ?U = ?w1"
      by (rule Pair_inject)
    moreover have "prefix (trace wi @ [DbOpen ?nk, OsOpen ?lp]) (trace (snd ?U))"
      using u unfolding Push_uploads_def Let_def by blast
    ultimately show False
      by (simp add: prefix_def)
  qed
  have empty: "\<And>fl m. found = Inr fl \<Longrightarrow> chk = Inr m \<Longrightarrow> gf_md5 fl = [] \<Longrightarrow> m \<noteq> [] \<Longrightarrow>
      Push_uploads E b opts re w pre path post wi"
    using up2 by metis
  show ?thesis
  proof (intro conjI impI allI)
    assume "found = Inl ErrNotFound"
    then show "Push_uploads E b opts re w pre path post wi" by (rule up)
  next
    fix fl m
    assume "found = Inr fl \<and> chk = Inr m" "gf_md5 fl \<noteq> m"
    then show "Push_uploads E b opts re w pre path post wi" using up2 by blast
  next
    fix fl m
    assume "found = Inr fl \<and> chk = Inr m" "gf_md5 fl = [] \<and> m \<noteq> []"
    then show "Push_uploads E b opts re w pre path post wi" using empty by blast
  next
    fix fl m
    assume "found = Inr fl \<and> chk = Inr m" "gf_md5 fl = m"
    then show "Push_skips E b opts re w pre path post wi" using same by blast
  next
    fix fl m
    assume "found = Inr fl \<and> chk = Inr m" "gf_md5 fl = m"
    then have "Push_skips E b opts re w pre path post wi" using same by blast
    then show "\<not> Push_uploads E b opts re w pre path post wi" by (rule not_up)
  qed
qed

theorem Push_decision_witness:
  "Push_skips (example_env_tree [''a.txt'', ''b.txt'']) (example_bucket ''pre'' False)
     \<lparr>Local = ''loc'', Remote = ''r'', Exclude = []\<rparr> None
     (example_world [example_file ''pre/r/a.txt'' ''X'']
        [''loc/a.txt'' \<mapsto> ''X'', ''loc/b.txt'' \<mapsto> ''Y''] no_fault)
     [] ''a.txt'' [''b.txt'']
     (example_world [example_file ''pre/r/a.txt'' ''X'']
        [''loc/a.txt'' \<mapsto> ''X'', ''loc/b.txt'' \<mapsto> ''Y''] no_fault) \<and>
   Push_uploads (example_env_tree [''a.txt'', ''b.txt'']) (example_bucket ''pre'' False)
     \<lparr>Local = ''loc'', Remote = ''r'', Exclude = []\<rparr> None
     (example_world [example_file ''pre/r/a.txt'' ''X'']
        [''loc/a.txt'' \<mapsto> ''X'', ''loc/b.txt'' \<mapsto> ''Y''] no_fault)
     [''a.txt''] ''b.txt'' []
     (emit (DbOpen ''pre/r/a.txt'')
        (example_world [example_file ''pre/r/a.txt'' ''X'']
           [''loc/a.txt'' \<mapsto> ''X'', ''loc/b.txt'' \<mapsto> ''Y''] no_fault)) \<and>
   Push (example_env_tree [''a.txt'', ''b.txt'']) (example_bucket ''pre'' False)
     \<lparr>Local = ''loc'', Remote = ''r'', Exclude = []\<rparr>
     (example_world [example_file ''pre/r/a.txt'' ''X'']
        [''loc/a.txt'' \<mapsto> ''X'', ''loc/b.txt'' \<mapsto> ''Y''] no_fault)
   = (None,
      \<lparr>files = [example_file ''pre/r/a.txt'' ''X'', example_file ''pre/r/b.txt'' ''Y''],
       disk = [''loc/a.txt'' \<mapsto> ''X'', ''loc/b.txt'' \<mapsto> ''Y''],
       trace = [DbOpen ''pre/r/a.txt'', DbOpen ''pre/r/b.txt'', OsOpen ''loc/b.txt'',
                DbCreate ''pre/r/b.txt'', DbWrite ''pre/r/b.txt'', DbClose ''pre/r/b.txt'',
                OsClose ''loc/b.txt''],
       fault = no_fault\<rparr>)"
proof -
  let ?E = "example_env_tree [''a.txt'', ''b.txt'']"
  let ?b = "example_bucket ''pre'' False"
  let ?opts = "\<lparr>Local = ''loc'', Remote = ''r'', Exclude = []\<rparr>"
  let ?wa = "example_world [example_file ''pre/r/a.txt'' ''X'']
        [''loc/a.txt'' \<mapsto> ''X'', ''loc/b.txt'' \<mapsto> ''Y''] no_fault"
  let ?wi = "emit (DbOpen ''pre/r/a.txt'') ?wa"
  have comp: "compile_exclude ?E (Exclude ?opts) = Inr None"
    by (simp add: compile_exclude_def)
  have walk1: "walkLocalTree ?E ?wa (Local ?opts) = Inr ([] @ ''a.txt'' # [''b.txt''])"
    by simp
  have walk2: "walkLocalTree ?E ?wa (Local ?opts) = Inr ([''a.txt''] @ ''b.txt'' # [])"
    by simp
  have before1: "Push_loop ?E ?b ?opts None [] ?wa = (None, ?wa)"
    by simp
  have ex: "\<not> excluded None ''a.txt''" "\<not> excluded None ''b.txt''"
    by (simp_all add: excluded_def)
  have nk1: "''pre/r/a.txt'' = normalizeKey ?E ?b (consistentJoin ?E (Remote ?opts) ''a.txt'')"
    by (simp add: normalizeKey_def spec_join_def)
  have nk2: "''pre/r/b.txt'' = normalizeKey ?E ?b (consistentJoin ?E (Remote ?opts) ''b.txt'')"
    by (simp add: normalizeKey_def spec_join_def)
  have found1: "Inr (example_file ''pre/r/a.txt'' ''X'') = fst (gridfs_Open ''pre/r/a.txt'' ?wa)"
    by (simp add: gridfs_Open_def no_fault_def Let_def)
  have chk1: "Inr ''X'' =
      md5sum ?E (emit (DbOpen ''pre/r/a.txt'') ?wa) (filepathJoin ?E (Local ?opts) ''a.txt'')"
    by (simp add: spec_md5sum_def no_fault_def)
  have found2: "Inl ErrNotFound = fst (gridfs_Open ''pre/r/b.txt'' ?wi)"
    by (simp add: gridfs_Open_def no_fault_def Let_def)
  from Push_decision [OF comp walk1 before1 ex(1) nk1 found1 chk1]
  have skip: "Push_skips ?E ?b ?opts None ?wa [] ''a.txt'' [''b.txt''] ?wa"
    by simp
  then have "Push_loop ?E ?b ?opts None ([] @ [''a.txt'']) ?wa =
      (None, emit (DbOpen (normalizeKey ?E ?b (consistentJoin ?E (Remote ?opts) ''a.txt''))) ?wa)"
    unfolding Push_skips_def Let_def by (rule conjunct1)
  then have before2: "Push_loop ?E ?b ?opts None [''a.txt''] ?wa = (None, ?wi)"
    using nk1 by simp
  from Push_decision [OF comp walk2 before2 ex(2) nk2 found2 refl]
  have up: "Push_uploads ?E ?b ?opts None ?wa [''a.txt''] ''b.txt'' [] ?wi"
    by simp
  have U: "Upload ?E ?b ''r/b.txt'' ''loc/b.txt'' (emit (DbOpen ''pre/r/b.txt'') ?wi)
      = (None,
      \<lparr>files = [example_file ''pre/r/a.txt'' ''X'', example_file ''pre/r/b.txt'' ''Y''],
       disk = [''loc/a.txt'' \<mapsto> ''X'', ''loc/b.txt'' \<mapsto> ''Y''],
       trace = [DbOpen ''pre/r/a.txt'', DbOpen ''pre/r/b.txt'', OsOpen ''loc/b.txt'',
                DbCreate ''pre/r/b.txt'', DbWrite ''pre/r/b.txt'', DbClose ''pre/r/b.txt'',
                OsClose ''loc/b.txt''],
       fault = no_fault\<rparr>)"
    by (simp add: Upload_def os_Open_def Put_def openFile_def gridfs_Create_def io_Copy_def
        stream_Write_def stream_Close_def normalizeKey_def spec_join_def no_fault_def
        emit_def Let_def example_world_def example_file_def)
  have "Push ?E ?b ?opts ?wa =
      Push_finish ?E ?b ?opts None ([''a.txt''] @ ''b.txt'' # []) []
        (wrap (fst (Upload ?E ?b (consistentJoin ?E (Remote ?opts) ''b.txt'')
                      (filepathJoin ?E (Local ?opts) ''b.txt'')
                      (emit (DbOpen (normalizeKey ?E ?b (consistentJoin ?E (Remote ?opts) ''b.txt''))) ?wi)))
              (upload_msg ''b.txt'' (consistentJoin ?E (Remote ?opts) ''b.txt'')),
         snd (Upload ?E ?b (consistentJoin ?E (Remote ?opts) ''b.txt'')
                      (filepathJoin ?E (Local ?opts) ''b.txt'')
                      (emit (DbOpen (normalizeKey ?E ?b (consistentJoin ?E (Remote ?opts) ''b.txt''))) ?wi)))"
    using up unfolding Push_uploads_def Let_def by blast
  then have result: "Push ?E ?b ?opts ?wa =
      (None,
      \<lparr>files = [example_file ''pre/r/a.txt'' ''X'', example_file ''pre/r/b.txt'' ''Y''],
       disk = [''loc/a.txt'' \<mapsto> ''X'', ''loc/b.txt'' \<mapsto> ''Y''],
       trace = [DbOpen ''pre/r/a.txt'', DbOpen ''pre/r/b.txt'', OsOpen ''loc/b.txt'',
                DbCreate ''pre/r/b.txt'', DbWrite ''pre/r/b.txt'', DbClose ''pre/r/b.txt'',
                OsClose ''loc/b.txt''],
       fault = no_fault\<rparr>)"
    using nk2 [symmetric] U by (simp add: Push_finish_def spec_join_def)
  from skip up result show ?thesis by simp
qed

section \<open>Pull: every listed file\<close>










end
